theory Spec2Isabelle
  imports
    Complex_Main
    "HOL-Library.Multiset"
    "HOL-Library.Char_ord"
    "HOL-Library.List_Lexorder"
    "HOL-Library.Product_Lexorder"
    "HOL-Library.Sublist"
begin

section \<open>Shellman: the file-operation engine and the listing pipeline of \<open>src/main.py\<close>\<close>

text \<open>
  The development embeds the non-visual logic of \<open>main.py\<close>: the helpers \<open>is_archive\<close> and
  \<open>get_git_status\<close>, the class \<open>UndoStack\<close>, and the methods \<open>_sort_entries\<close>,
  \<open>refresh_table\<close>, \<open>selected_entry\<close>, \<open>_effective_targets\<close>, \<open>action_delete\<close>,
  \<open>action_copy_item\<close>, \<open>action_cut_item\<close>, \<open>action_paste_item\<close>, \<open>action_undo\<close>,
  \<open>action_archive\<close> and \<open>_extract_archive\<close> of \<open>FileManagerApp\<close>.

  Conventions.
  \<^item> Python \<open>str\<close> is \<open>string\<close>; the text handled is taken to be ASCII, so \<open>lower\<close>,
    \<open>strip\<close> and \<open>splitlines\<close> are the ASCII parts of the Python methods.
  \<^item> A \<open>pathlib.Path\<close> is the list of its \<open>parts\<close> under the POSIX flavour.
  \<^item> Whatever lies outside the program (the file system, the clock, the \<open>git\<close> subprocess,
    the \<open>shutil\<close>, \<open>zipfile\<close>, \<open>tarfile\<close> and \<open>gzip\<close> libraries) is a world \<open>'w\<close>
    together with a record \<open>'w os\<close> of primitives acting on it. A primitive that can raise
    returns the exception beside the world it leaves behind, so that a partial effect of a
    failed call is not lost. All theorems hold for every world and every behaviour of the
    primitives.
  \<^item> Every \<open>try\<close>/\<open>except\<close> of the source is a case distinction on such a result; an
    exception that no handler of the modelled method catches is returned to the caller.
\<close>

subsection \<open>Strings\<close>

definition is_upper :: "char \<Rightarrow> bool" where
  "is_upper c = (65 \<le> (of_char c :: nat) \<and> (of_char c :: nat) \<le> 90)"

definition lower_char :: "char \<Rightarrow> char" where
  "lower_char c = (if is_upper c then char_of ((of_char c :: nat) + 32) else c)"

text \<open>\<open>str.lower()\<close> on ASCII text.\<close>

definition lower :: "string \<Rightarrow> string" where
  "lower s = map lower_char s"

text \<open>\<open>str.isspace()\<close> for one ASCII character: TAB, LF, VT, FF, CR, FS, GS, RS, US, space.\<close>

definition is_space :: "char \<Rightarrow> bool" where
  "is_space c = (let n = (of_char c :: nat) in (9 \<le> n \<and> n \<le> 13) \<or> (28 \<le> n \<and> n \<le> 32))"

text \<open>\<open>str.strip()\<close>.\<close>

definition strip :: "string \<Rightarrow> string" where
  "strip s = rev (dropWhile is_space (rev (dropWhile is_space s)))"

text \<open>\<open>s.startswith(p)\<close>, \<open>s.endswith(p)\<close> and \<open>sub in s\<close>.\<close>

definition startswith :: "string \<Rightarrow> string \<Rightarrow> bool" where
  "startswith s p = (take (length p) s = p)"

definition endswith :: "string \<Rightarrow> string \<Rightarrow> bool" where
  "endswith s p = (length p \<le> length s \<and> drop (length s - length p) s = p)"

definition contains :: "string \<Rightarrow> string \<Rightarrow> bool" where
  "contains s sub = sublist sub s"

text \<open>
  \<open>str.split(sep)\<close> for a non-empty separator: a scan from the left that cuts at every
  occurrence found and resumes behind it. The argument \<open>cur\<close> is the piece being read.
  (With an empty separator Python raises; no call of the program passes one, and the scan
  below then returns the text whole.)
\<close>

function split_from :: "string \<Rightarrow> string \<Rightarrow> string \<Rightarrow> string list" where
  "split_from sep cur [] = [cur]"
| "split_from sep cur (c # cs) =
     (if sep \<noteq> [] \<and> prefix sep (c # cs)
      then cur # split_from sep [] (drop (length sep) (c # cs))
      else split_from sep (cur @ [c]) cs)"
  by pat_completeness auto
termination
  by (relation "measure (\<lambda>(sep, cur, s). length s)") (auto simp: neq_Nil_conv)

definition split :: "string \<Rightarrow> string \<Rightarrow> string list" where
  "split s sep = split_from sep [] s"

text \<open>
  \<open>str.splitlines()\<close>: the ASCII line boundaries are LF, CR, CR LF, VT, FF, FS, GS and RS;
  a boundary at the very end opens no further line.
\<close>

definition is_linebreak :: "char \<Rightarrow> bool" where
  "is_linebreak c = (let n = (of_char c :: nat) in (10 \<le> n \<and> n \<le> 13) \<or> (28 \<le> n \<and> n \<le> 30))"

fun splitlines_from :: "string \<Rightarrow> string \<Rightarrow> string list" where
  "splitlines_from cur [] = (if cur = [] then [] else [cur])"
| "splitlines_from cur [c] = (if is_linebreak c then [cur] else [cur @ [c]])"
| "splitlines_from cur (c # d # ds) =
     (if c = CHR 0x0D \<and> d = CHR 0x0A then cur # splitlines_from [] ds
      else if is_linebreak c then cur # splitlines_from [] (d # ds)
      else splitlines_from (cur @ [c]) (d # ds))"

definition splitlines :: "string \<Rightarrow> string list" where
  "splitlines s = splitlines_from [] s"

subsection \<open>Paths\<close>

text \<open>
  A path is the tuple \<open>Path(...).parts\<close>: the root (\<open>/\<close> or \<open>//\<close>), if any, followed by the
  components. \<open>path_parts\<close> is the parser of \<open>pathlib\<close> for the POSIX flavour: it splits the
  root off, cuts at \<open>/\<close> and drops the empty components and the components \<open>.\<close>.
\<close>

type_synonym path = "string list"

definition splitroot :: "string \<Rightarrow> string \<times> string" where
  "splitroot p =
     (if take 1 p \<noteq> ''/'' then ('''', p)
      else if take 1 (drop 1 p) \<noteq> ''/'' \<or> take 1 (drop 2 p) = ''/'' then (''/'', drop 1 p)
      else (take 2 p, drop 2 p))"

definition path_parts :: "string \<Rightarrow> path" where
  "path_parts s =
     (let (root, rel) = splitroot s;
          parsed = filter (\<lambda>x. x \<noteq> [] \<and> x \<noteq> ''.'') (split rel ''/'')
      in if root \<noteq> [] then root # parsed else parsed)"

definition is_anchor :: "string \<Rightarrow> bool" where
  "is_anchor s = (s = ''/'' \<or> s = ''//'')"

text \<open>\<open>Path.name\<close>: the last component, empty for the root and for the empty path.\<close>

definition path_name :: "path \<Rightarrow> string" where
  "path_name p = (if p = [] \<or> (length p = 1 \<and> is_anchor (hd p)) then [] else last p)"

text \<open>\<open>Path.parent\<close>: the root and the empty path are their own parents.\<close>

definition parent :: "path \<Rightarrow> path" where
  "parent p = (if p = [] \<or> (length p = 1 \<and> is_anchor (hd p)) then p else butlast p)"

text \<open>\<open>base / s\<close>: an absolute \<open>s\<close> replaces the base.\<close>

definition joinpath :: "path \<Rightarrow> string \<Rightarrow> path" where
  "joinpath base s = (if startswith s ''/'' then path_parts s else base @ path_parts s)"

text \<open>
  \<open>str.rfind('.')\<close> on a name, and with it \<open>Path.suffix\<close> and \<open>Path.stem\<close>: the suffix starts at
  the last dot, provided that dot is neither the first nor the last character of the name.
\<close>

definition rfind_dot :: "string \<Rightarrow> nat option" where
  "rfind_dot n =
     (case filter (\<lambda>i. n ! i = CHR ''.'') (rev [0 ..< length n]) of
        [] \<Rightarrow> None | i # _ \<Rightarrow> Some i)"

definition path_suffix :: "path \<Rightarrow> string" where
  "path_suffix p =
     (let n = path_name p in
      case rfind_dot n of
        None \<Rightarrow> []
      | Some i \<Rightarrow> if 0 < i \<and> i < length n - 1 then drop i n else [])"

definition path_stem :: "path \<Rightarrow> string" where
  "path_stem p =
     (let n = path_name p in
      case rfind_dot n of
        None \<Rightarrow> n
      | Some i \<Rightarrow> if 0 < i \<and> i < length n - 1 then take i n else n)"

subsection \<open>Exceptions and the outside world\<close>

datatype exn_kind =
    PermissionError
  | FileExistsError
  | FileNotFoundError
  | NotADirectoryError
  | BadFileDescriptor
  | SymlinkLoop
  | ValueError
  | TimeoutExpired
  | OtherException

datatype exn = Exn (kind: exn_kind) (message: string)

text \<open>What \<open>subprocess.run\<close> does: it raises, or it returns the exit code and the output.\<close>

datatype proc_outcome = Raised exn | Completed int string

datatype file_kind = Directory | Regular | Special

record stat_result =
  st_kind :: file_kind
  st_size :: int
  st_mtime :: real

text \<open>
  The primitives. \<open>path_stat\<close> is \<open>Path.stat()\<close>, with the exception it raises; \<open>zip_open\<close> is the
  making of \<open>zipfile.ZipFile(out, "w", ZIP_DEFLATED)\<close>, \<open>zip_add\<close> its method \<open>write\<close> with the
  file and its name in the archive, \<open>zip_close\<close> the exit of the \<open>with\<close> statement;
  \<open>rglob_all\<close> is what \<open>t.rglob("*")\<close> yields; \<open>gunzip_copy\<close> is the statement
  \<open>with gzip.open(...) as gz, open(..., "wb") as out: shutil.copyfileobj(gz, out)\<close>.
\<close>

record 'w os =
  home :: path
  subprocess_run :: "'w \<Rightarrow> string list \<Rightarrow> path \<Rightarrow> nat \<Rightarrow> proc_outcome"
  path_stat :: "'w \<Rightarrow> path \<Rightarrow> exn + stat_result"
  iterdir :: "'w \<Rightarrow> path \<Rightarrow> exn + path list"
  rglob_all :: "'w \<Rightarrow> path \<Rightarrow> exn + path list"
  strftime_now :: "'w \<Rightarrow> string"
  mkdir_parents :: "path \<Rightarrow> 'w \<Rightarrow> exn option \<times> 'w"
  shutil_move :: "path \<Rightarrow> path \<Rightarrow> 'w \<Rightarrow> exn option \<times> 'w"
  shutil_copytree :: "path \<Rightarrow> path \<Rightarrow> 'w \<Rightarrow> exn option \<times> 'w"
  shutil_copy2 :: "path \<Rightarrow> path \<Rightarrow> 'w \<Rightarrow> exn option \<times> 'w"
  shutil_rmtree :: "path \<Rightarrow> 'w \<Rightarrow> exn option \<times> 'w"
  unlink_missing_ok :: "path \<Rightarrow> 'w \<Rightarrow> exn option \<times> 'w"
  path_rmdir :: "path \<Rightarrow> 'w \<Rightarrow> exn option \<times> 'w"
  path_rename :: "path \<Rightarrow> path \<Rightarrow> 'w \<Rightarrow> exn option \<times> 'w"
  zip_extractall :: "path \<Rightarrow> path \<Rightarrow> 'w \<Rightarrow> exn option \<times> 'w"
  tar_extractall :: "path \<Rightarrow> path \<Rightarrow> 'w \<Rightarrow> exn option \<times> 'w"
  gunzip_copy :: "path \<Rightarrow> path \<Rightarrow> 'w \<Rightarrow> exn option \<times> 'w"
  zip_open :: "path \<Rightarrow> 'w \<Rightarrow> exn option \<times> 'w"
  zip_add :: "path \<Rightarrow> path \<Rightarrow> path \<Rightarrow> 'w \<Rightarrow> exn option \<times> 'w"
  zip_close :: "path \<Rightarrow> 'w \<Rightarrow> exn option \<times> 'w"

text \<open>
  \<open>Path.is_dir()\<close> and \<open>Path.is_file()\<close> of \<open>pathlib\<close> (Python 3.11 and 3.12): a test of the
  \<open>stat\<close> result. When \<open>stat\<close> raises, the answer is \<open>False\<close> only for the errors that
  \<open>_ignore_error\<close> lets pass (no such file, not a directory, bad file descriptor, symbolic
  link loop) and for \<open>ValueError\<close>; every other exception, \<open>PermissionError\<close> among them, is
  raised again.
\<close>

definition ignore_error :: "exn \<Rightarrow> bool" where
  "ignore_error e =
     (kind e = FileNotFoundError \<or> kind e = NotADirectoryError \<or> kind e = BadFileDescriptor
      \<or> kind e = SymlinkLoop \<or> kind e = ValueError)"

definition is_dir :: "'w os \<Rightarrow> 'w \<Rightarrow> path \<Rightarrow> exn + bool" where
  "is_dir os w p =
     (case path_stat os w p of
        Inr s \<Rightarrow> Inr (st_kind s = Directory)
      | Inl e \<Rightarrow> if ignore_error e then Inr False else Inl e)"

definition is_file :: "'w os \<Rightarrow> 'w \<Rightarrow> path \<Rightarrow> exn + bool" where
  "is_file os w p =
     (case path_stat os w p of
        Inr s \<Rightarrow> Inr (st_kind s = Regular)
      | Inl e \<Rightarrow> if ignore_error e then Inr False else Inl e)"

subsection \<open>\<open>is_archive\<close>\<close>

definition is_archive :: "path \<Rightarrow> bool" where
  "is_archive p =
     (let name = lower (path_name p) in
        endswith name ''.zip''
      \<or> endswith name ''.tar''
      \<or> endswith name ''.tar.gz''
      \<or> endswith name ''.tgz''
      \<or> endswith name ''.tar.bz2''
      \<or> endswith name ''.tar.xz''
      \<or> endswith name ''.gz''
      \<or> endswith name ''.bz2'')"

subsection \<open>\<open>get_git_status\<close>\<close>

text \<open>The chain \<open>if xy.strip() == "??" ... elif ... else\<close> of the loop body, on \<open>xy = line[:2]\<close>.\<close>

definition status_code :: "string \<Rightarrow> string" where
  "status_code xy =
     (let x = xy ! 0; y = xy ! 1 in
      if strip xy = ''??'' then ''?''
      else if x = CHR ''A'' \<or> y = CHR ''A'' then ''A''
      else if x = CHR ''M'' \<or> y = CHR ''M'' then ''M''
      else if x = CHR ''D'' \<or> y = CHR ''D'' then ''D''
      else if x = CHR ''R'' \<or> y = CHR ''R'' then ''R''
      else ''~'')"

text \<open>The name under which a line is filed, from \<open>line[3:]\<close>.\<close>

definition top_level_name :: "string \<Rightarrow> string" where
  "top_level_name rest =
     (let filepath = strip rest;
          filepath = (if contains filepath '' -> '' then last (split filepath '' -> '') else filepath)
      in case path_parts filepath of [] \<Rightarrow> filepath | p # _ \<Rightarrow> p)"

text \<open>One turn of the loop: lines of fewer than four characters are skipped.\<close>

definition status_step :: "string \<Rightarrow> (string \<rightharpoonup> string) \<Rightarrow> (string \<rightharpoonup> string)" where
  "status_step line status_map =
     (if length line < 4 then status_map
      else status_map(top_level_name (drop 3 line) \<mapsto> status_code (take 2 line)))"

definition git_argv :: "string list" where
  "git_argv = [''git'', ''status'', ''--porcelain'']"

text \<open>
  The body of the \<open>try\<close> block, and the function with its \<open>except Exception: return {}\<close>.
\<close>

definition git_status_body :: "'w os \<Rightarrow> 'w \<Rightarrow> path \<Rightarrow> exn + (string \<rightharpoonup> string)" where
  "git_status_body os w directory =
     (case subprocess_run os w git_argv directory 2 of
        Raised e \<Rightarrow> Inl e
      | Completed returncode stdout \<Rightarrow>
          if returncode \<noteq> 0 then Inr Map.empty
          else Inr (fold status_step (splitlines stdout) Map.empty))"

definition get_git_status :: "'w os \<Rightarrow> 'w \<Rightarrow> path \<Rightarrow> (string \<rightharpoonup> string)" where
  "get_git_status os w directory =
     (case git_status_body os w directory of Inl e \<Rightarrow> Map.empty | Inr status_map \<Rightarrow> status_map)"

subsection \<open>The undo stack\<close>

text \<open>
  The stack holds (description, callable) pairs. Each callable of the source is a
  \<open>lambda\<close> or a local function closed over the paths of the operation it reverses; it is
  represented by a constructor that carries these paths, one constructor for each place of
  the source that builds one, and \<open>run_undo\<close> below gives the body of each.
\<close>

datatype undo_fn =
    UndoCreate path
  | UndoMkdir path
  | UndoRename path path
  | UndoDelete "(path \<times> path) list"
  | UndoMove path path
  | UndoCopy path
  | UndoZip path
  | UndoExtract path

type_synonym undo_stack = "(string \<times> undo_fn) list"

text \<open>The Python list grows and shrinks at its end.\<close>

definition push :: "undo_stack \<Rightarrow> string \<Rightarrow> undo_fn \<Rightarrow> undo_stack" where
  "push stack description undo_f = stack @ [(description, undo_f)]"

definition pop :: "undo_stack \<Rightarrow> (string \<times> undo_fn) option \<times> undo_stack" where
  "pop stack = (if stack \<noteq> [] then (Some (last stack), butlast stack) else (None, stack))"

definition peek :: "undo_stack \<Rightarrow> string option" where
  "peek stack = (if stack \<noteq> [] then Some (fst (last stack)) else None)"

definition clear :: "undo_stack \<Rightarrow> undo_stack" where
  "clear stack = []"

text \<open>\<open>_undo_delete\<close>: the moves back stop at the first one that raises.\<close>

fun undo_delete :: "'w os \<Rightarrow> (path \<times> path) list \<Rightarrow> 'w \<Rightarrow> exn option \<times> 'w" where
  "undo_delete os [] w = (None, w)"
| "undo_delete os ((trash_path, original) # moves) w =
     (case shutil_move os trash_path original w of
        (Some e, w') \<Rightarrow> (Some e, w')
      | (None, w') \<Rightarrow> undo_delete os moves w')"

text \<open>The body \<open>shutil.rmtree(str(d)) if d.is_dir() else d.unlink(missing_ok=True)\<close>.\<close>

definition remove_path :: "'w os \<Rightarrow> path \<Rightarrow> 'w \<Rightarrow> exn option \<times> 'w" where
  "remove_path os d w =
     (case is_dir os w d of
        Inl e \<Rightarrow> (Some e, w)
      | Inr isdir \<Rightarrow> if isdir then shutil_rmtree os d w else unlink_missing_ok os d w)"

fun run_undo :: "'w os \<Rightarrow> undo_fn \<Rightarrow> 'w \<Rightarrow> exn option \<times> 'w" where
  "run_undo os (UndoCreate t) w = unlink_missing_ok os t w"
| "run_undo os (UndoMkdir t) w = path_rmdir os t w"
| "run_undo os (UndoRename t orig) w = path_rename os t orig w"
| "run_undo os (UndoDelete moves) w = undo_delete os moves w"
| "run_undo os (UndoMove d orig) w = shutil_move os d orig w"
| "run_undo os (UndoCopy d) w = remove_path os d w"
| "run_undo os (UndoZip p) w = unlink_missing_ok os p w"
| "run_undo os (UndoExtract d) w = remove_path os d w"

subsection \<open>The state of \<open>FileManagerApp\<close>\<close>

datatype sort_mode = SortName | SortSize | SortModified | SortType

datatype clip_op = Copy | Cut

text \<open>The messages of \<open>set_status\<close>, each with the values its f-string shows.\<close>

datatype status_msg =
    Blank
  | PermissionDenied
  | Listing nat nat string bool "string option"
  | NoItemSelected
  | ErrorDeleting string exn
  | Deleted string
  | ClipboardNote clip_op string
  | CutNote string
  | ClipboardEmpty
  | SameLocation
  | Moved string
  | Copied string
  | Error exn
  | NothingToUndo
  | Undone string
  | UndoFailed exn
  | NoItemsToZip
  | CreatedArchive string
  | ArchiveError exn
  | UnsupportedFormat string
  | Extracted string string
  | ExtractionError exn

text \<open>
  \<open>row_count\<close> is the number of rows of the table widget, \<open>selected\<close> is the set
  \<open>_selected\<close> in its iteration order, \<open>undo\<close> is \<open>_undo._stack\<close> and \<open>status\<close> the message
  of the status bar. The row of the table cursor belongs to the widget and is an argument
  of the methods that read it.
\<close>

record 'w app =
  world :: 'w
  current_dir :: path
  show_hidden :: bool
  clipboard :: "path option"
  clipboard_op :: clip_op
  sort_mode :: sort_mode
  filter_text :: string
  row_entries :: "path list"
  row_count :: nat
  selected :: "path list"
  undo :: undo_stack
  status :: status_msg

definition TRASH_DIR :: "'w os \<Rightarrow> path" where
  "TRASH_DIR os = joinpath (home os) ''.shellman_trash''"

subsection \<open>\<open>_sort_entries\<close> and \<open>refresh_table\<close>\<close>

text \<open>
  The local functions \<open>_size\<close> and \<open>_mtime\<close>: whatever \<open>is_file\<close> or \<open>stat\<close> raises is
  caught by their \<open>except Exception\<close> and gives 0.
\<close>

definition entry_size :: "'w os \<Rightarrow> 'w \<Rightarrow> path \<Rightarrow> int" where
  "entry_size os w p =
     (case is_file os w p of
        Inl e \<Rightarrow> 0
      | Inr isfile \<Rightarrow>
          if isfile then (case path_stat os w p of Inr s \<Rightarrow> st_size s | Inl e \<Rightarrow> 0) else 0)"

definition entry_mtime :: "'w os \<Rightarrow> 'w \<Rightarrow> path \<Rightarrow> real" where
  "entry_mtime os w p = (case path_stat os w p of Inr s \<Rightarrow> st_mtime s | Inl e \<Rightarrow> 0)"

text \<open>
  \<open>sorted(entries, key=...)\<close> first calls the key on every entry, in the order of the list,
  and an exception of the key leaves \<open>sorted\<close>; then it sorts by the keys alone, stably, as
  \<open>sort_key\<close> does. Tuples are compared lexicographically, \<open>False\<close> before \<open>True\<close>, strings
  by their characters.
\<close>

fun keys_of :: "(path \<Rightarrow> exn + 'k) \<Rightarrow> path list \<Rightarrow> exn + ('k \<times> path) list" where
  "keys_of key [] = Inr []"
| "keys_of key (p # ps) =
     (case key p of
        Inl e \<Rightarrow> Inl e
      | Inr k \<Rightarrow> (case keys_of key ps of Inl e \<Rightarrow> Inl e | Inr kps \<Rightarrow> Inr ((k, p) # kps)))"

definition sorted_by :: "(path \<Rightarrow> exn + 'k::linorder) \<Rightarrow> path list \<Rightarrow> exn + path list" where
  "sorted_by key entries =
     (case keys_of key entries of
        Inl e \<Rightarrow> Inl e
      | Inr kps \<Rightarrow> Inr (map snd (sort_key fst kps)))"

text \<open>
  The four keys. Each starts with \<open>not p.is_dir()\<close>, which stands outside every \<open>try\<close>: what
  \<open>is_dir\<close> raises is raised by the key.
\<close>

definition name_key :: "'w os \<Rightarrow> 'w \<Rightarrow> path \<Rightarrow> exn + (bool \<times> string)" where
  "name_key os w p =
     (case is_dir os w p of Inl e \<Rightarrow> Inl e | Inr isdir \<Rightarrow> Inr (\<not> isdir, lower (path_name p)))"

definition size_key :: "'w os \<Rightarrow> 'w \<Rightarrow> path \<Rightarrow> exn + (bool \<times> int)" where
  "size_key os w p =
     (case is_dir os w p of Inl e \<Rightarrow> Inl e | Inr isdir \<Rightarrow> Inr (\<not> isdir, entry_size os w p))"

definition modified_key :: "'w os \<Rightarrow> 'w \<Rightarrow> path \<Rightarrow> exn + (bool \<times> real)" where
  "modified_key os w p =
     (case is_dir os w p of Inl e \<Rightarrow> Inl e | Inr isdir \<Rightarrow> Inr (\<not> isdir, - entry_mtime os w p))"

definition type_key :: "'w os \<Rightarrow> 'w \<Rightarrow> path \<Rightarrow> exn + (bool \<times> string \<times> string)" where
  "type_key os w p =
     (case is_dir os w p of
        Inl e \<Rightarrow> Inl e
      | Inr isdir \<Rightarrow> Inr (\<not> isdir, lower (path_suffix p), lower (path_name p)))"

definition sort_entries ::
  "'w os \<Rightarrow> 'w \<Rightarrow> sort_mode \<Rightarrow> path list \<Rightarrow> exn + path list" where
  "sort_entries os w mode entries =
     (case mode of
        SortName \<Rightarrow> sorted_by (name_key os w) entries
      | SortSize \<Rightarrow> sorted_by (size_key os w) entries
      | SortModified \<Rightarrow> sorted_by (modified_key os w) entries
      | SortType \<Rightarrow> sorted_by (type_key os w) entries)"

text \<open>
  The loop that fills the table: \<open>entry.is_dir()\<close>, called for the icon, stands outside the
  \<open>try\<close> of the loop body, so what it raises leaves the loop with the rows added so far.
  The other cells of a row (size, date, permissions) are display only and are left out;
  their computations are all guarded in the source.
\<close>

fun add_rows :: "'w os \<Rightarrow> 'w \<Rightarrow> path list \<Rightarrow> path list \<Rightarrow> exn option \<times> path list" where
  "add_rows os w [] rows = (None, rows)"
| "add_rows os w (entry # entries) rows =
     (case is_dir os w entry of
        Inl e \<Rightarrow> (Some e, rows)
      | Inr isdir \<Rightarrow> add_rows os w entries (rows @ [entry]))"

text \<open>
  \<open>refresh_table\<close>: the table is cleared; \<open>PermissionError\<close> from \<open>iterdir\<close> is reported and
  the method returns with \<open>_row_entries\<close> as it was; any other exception of \<open>iterdir\<close>, and
  any exception of \<open>_sort_entries\<close> or of the loop, leaves the method. The disk usage at
  the end of the summary is left out.
\<close>

definition refresh_table :: "'w os \<Rightarrow> 'w app \<Rightarrow> exn option \<times> 'w app" where
  "refresh_table os st0 =
     (let st = st0\<lparr>row_count := 0\<rparr> in
      case iterdir os (world st) (current_dir st) of
        Inl e \<Rightarrow>
          if kind e = PermissionError then (None, st\<lparr>status := PermissionDenied\<rparr>)
          else (Some e, st)
      | Inr raw_entries \<Rightarrow>
          (case sort_entries os (world st) (sort_mode st) raw_entries of
             Inl e \<Rightarrow> (Some e, st)
           | Inr sorted_entries \<Rightarrow>
               let entries = (if \<not> show_hidden st
                              then filter (\<lambda>e. \<not> startswith (path_name e) ''.'') sorted_entries
                              else sorted_entries);
                   entries = (if filter_text st \<noteq> []
                              then filter (\<lambda>e. contains (lower (path_name e))
                                                   (lower (filter_text st))) entries
                              else entries);
                   undo_note = (case peek (undo st) of
                                  None \<Rightarrow> None
                                | Some d \<Rightarrow> if d \<noteq> [] then Some d else None)
               in (case add_rows os (world st) entries [] of
                     (Some e, rows) \<Rightarrow>
                       (Some e, st\<lparr>row_entries := rows, row_count := length rows\<rparr>)
                   | (None, rows) \<Rightarrow>
                       (None, st\<lparr>row_entries := rows, row_count := length rows,
                                  status := Listing (length rows) (length (selected st))
                                              (filter_text st) (\<not> show_hidden st) undo_note\<rparr>))))"

subsection \<open>\<open>selected_entry\<close> and \<open>_effective_targets\<close>\<close>

definition selected_entry :: "int \<Rightarrow> 'w app \<Rightarrow> path option" where
  "selected_entry cursor_row st =
     (if cursor_row < 0 \<or> row_count st = 0 then None
      else if nat cursor_row < length (row_entries st)
           then Some (row_entries st ! nat cursor_row)
           else None)"

definition effective_targets :: "int \<Rightarrow> 'w app \<Rightarrow> path list" where
  "effective_targets cursor_row st =
     (if selected st \<noteq> [] then selected st
      else case selected_entry cursor_row st of Some entry \<Rightarrow> [entry] | None \<Rightarrow> [])"

subsection \<open>\<open>action_delete\<close>\<close>

text \<open>\<open>str(n)\<close> for the \<open>f"{len(targets)} items"\<close> of the label.\<close>

fun show_nat :: "nat \<Rightarrow> string" where
  "show_nat n =
     (if n < 10 then [char_of (48 + n)]
      else show_nat (n div 10) @ [char_of (48 + n mod 10)])"

declare show_nat.simps [simp del]

text \<open>
  The \<open>for entry in targets\<close> loop of \<open>handle\<close>: the result names the entry whose move
  raised, if one did, and gives the moves recorded so far and the world reached.
\<close>

fun delete_loop ::
  "'w os \<Rightarrow> path list \<Rightarrow> (path \<times> path) list \<Rightarrow> 'w
     \<Rightarrow> (string \<times> exn) option \<times> (path \<times> path) list \<times> 'w" where
  "delete_loop os [] undo_moves w = (None, undo_moves, w)"
| "delete_loop os (entry # rest) undo_moves w =
     (let ts = strftime_now os w;
          trash_path = joinpath (TRASH_DIR os) (ts @ ''_'' @ path_name entry)
      in case shutil_move os entry trash_path w of
           (Some e, w') \<Rightarrow> (Some (path_name entry, e), undo_moves, w')
         | (None, w') \<Rightarrow> delete_loop os rest (undo_moves @ [(trash_path, entry)]) w')"

text \<open>
  \<open>confirmed\<close> is the answer of the confirmation dialog. \<open>TRASH_DIR.mkdir\<close> and
  \<open>refresh_table\<close> stand outside the \<open>try\<close>: what they raise leaves the method.
\<close>

definition action_delete :: "'w os \<Rightarrow> int \<Rightarrow> bool \<Rightarrow> 'w app \<Rightarrow> exn option \<times> 'w app" where
  "action_delete os cursor_row confirmed st =
     (let targets = effective_targets cursor_row st in
      if targets = [] then (None, st\<lparr>status := NoItemSelected\<rparr>)
      else
        let label = (if length targets = 1 then path_name (hd targets)
                     else show_nat (length targets) @ '' items'')
        in if \<not> confirmed then (None, st)
           else
             case mkdir_parents os (TRASH_DIR os) (world st) of
               (Some e, w0) \<Rightarrow> (Some e, st\<lparr>world := w0\<rparr>)
             | (None, w0) \<Rightarrow>
                 (case delete_loop os targets [] w0 of
                    (Some (n, e), undo_moves, w1) \<Rightarrow>
                      (None, st\<lparr>world := w1, status := ErrorDeleting n e\<rparr>)
                  | (None, undo_moves, w1) \<Rightarrow>
                      (case refresh_table os (st\<lparr>world := w1, selected := []\<rparr>) of
                         (Some e, st') \<Rightarrow> (Some e, st')
                       | (None, st') \<Rightarrow>
                           (None, st'\<lparr>status := Deleted label,
                                      undo := push (undo st') (''delete '' @ label)
                                                (UndoDelete undo_moves)\<rparr>))))"

subsection \<open>The clipboard\<close>

text \<open>
  Assigning a new path to the reactive \<open>clipboard\<close> runs \<open>watch_clipboard\<close>, which reports
  the operation that \<open>clipboard_op\<close> names at that moment.
\<close>

definition set_clipboard :: "path \<Rightarrow> 'w app \<Rightarrow> 'w app" where
  "set_clipboard entry st =
     (if clipboard st = Some entry then st
      else st\<lparr>clipboard := Some entry,
               status := ClipboardNote (clipboard_op st) (path_name entry)\<rparr>)"

definition action_copy_item :: "int \<Rightarrow> 'w app \<Rightarrow> 'w app" where
  "action_copy_item cursor_row st =
     (case selected_entry cursor_row st of
        None \<Rightarrow> st\<lparr>status := NoItemSelected\<rparr>
      | Some entry \<Rightarrow> (set_clipboard entry st)\<lparr>clipboard_op := Copy\<rparr>)"

definition action_cut_item :: "int \<Rightarrow> 'w app \<Rightarrow> 'w app" where
  "action_cut_item cursor_row st =
     (case selected_entry cursor_row st of
        None \<Rightarrow> st\<lparr>status := NoItemSelected\<rparr>
      | Some entry \<Rightarrow>
          (set_clipboard entry st)\<lparr>clipboard_op := Cut, status := CutNote (path_name entry)\<rparr>)"

text \<open>
  \<open>action_paste_item\<close>. Everything after the two early returns is inside the \<open>try\<close>, the
  final \<open>refresh_table\<close> included.
\<close>

definition paste_finish :: "'w os \<Rightarrow> 'w app \<Rightarrow> 'w app" where
  "paste_finish os st =
     (case refresh_table os st of
        (Some e, st') \<Rightarrow> st'\<lparr>status := Error e\<rparr>
      | (None, st') \<Rightarrow> st')"

definition action_paste_item :: "'w os \<Rightarrow> 'w app \<Rightarrow> 'w app" where
  "action_paste_item os st =
     (case clipboard st of
        None \<Rightarrow> st\<lparr>status := ClipboardEmpty\<rparr>
      | Some src \<Rightarrow>
          let dst = joinpath (current_dir st) (path_name src) in
          if dst = src then st\<lparr>status := SameLocation\<rparr>
          else if clipboard_op st = Cut then
            (case shutil_move os src dst (world st) of
               (Some e, w') \<Rightarrow> st\<lparr>world := w', status := Error e\<rparr>
             | (None, w') \<Rightarrow>
                 paste_finish os
                   (st\<lparr>world := w', clipboard := None, status := Moved (path_name src),
                       undo := push (undo st) (''move '' @ path_name src) (UndoMove dst src)\<rparr>))
          else
            (case (case is_dir os (world st) src of
                     Inl e \<Rightarrow> (Some e, world st)
                   | Inr isdir \<Rightarrow>
                       if isdir then shutil_copytree os src dst (world st)
                       else shutil_copy2 os src dst (world st)) of
               (Some e, w') \<Rightarrow> st\<lparr>world := w', status := Error e\<rparr>
             | (None, w') \<Rightarrow>
                 paste_finish os
                   (st\<lparr>world := w', status := Copied (path_name src),
                       undo := push (undo st) (''copy '' @ path_name src) (UndoCopy dst)\<rparr>)))"

subsection \<open>\<open>action_undo\<close>\<close>

definition action_undo :: "'w os \<Rightarrow> 'w app \<Rightarrow> 'w app" where
  "action_undo os st =
     (case pop (undo st) of
        (None, stack) \<Rightarrow> st\<lparr>undo := stack, status := NothingToUndo\<rparr>
      | (Some (description, undo_f), stack) \<Rightarrow>
          (case run_undo os undo_f (world st) of
             (Some e, w') \<Rightarrow> st\<lparr>world := w', undo := stack, status := UndoFailed e\<rparr>
           | (None, w') \<Rightarrow>
               (case refresh_table os (st\<lparr>world := w', undo := stack\<rparr>) of
                  (Some e, st') \<Rightarrow> st'\<lparr>status := UndoFailed e\<rparr>
                | (None, st') \<Rightarrow> st'\<lparr>status := Undone description\<rparr>)))"

subsection \<open>\<open>_extract_archive\<close>\<close>

text \<open>
  \<open>extract_finish\<close> is the part of the \<open>try\<close> block behind the extraction proper, with the
  \<open>except\<close> clause: refresh, report, push.
\<close>

definition extract_finish ::
  "'w os \<Rightarrow> path \<Rightarrow> path \<Rightarrow> 'w app \<Rightarrow> exn option \<times> 'w \<Rightarrow> 'w app" where
  "extract_finish os path dest st r =
     (case r of
        (Some e, w') \<Rightarrow> st\<lparr>world := w', status := ExtractionError e\<rparr>
      | (None, w') \<Rightarrow>
          (case refresh_table os (st\<lparr>world := w'\<rparr>) of
             (Some e, st') \<Rightarrow> st'\<lparr>status := ExtractionError e\<rparr>
           | (None, st') \<Rightarrow>
               st'\<lparr>status := Extracted (path_name path) (path_name dest),
                   undo := push (undo st') (''extract '' @ path_name path) (UndoExtract dest)\<rparr>))"

definition extract_archive :: "'w os \<Rightarrow> path \<Rightarrow> 'w app \<Rightarrow> 'w app" where
  "extract_archive os path st =
     (let dest = joinpath (current_dir st) (path_stem path);
          name = lower (path_name path)
      in if endswith name ''.zip''
         then extract_finish os path dest st (zip_extractall os path dest (world st))
         else if endswith name ''.tar.gz'' \<or> endswith name ''.tgz'' \<or> endswith name ''.tar.bz2''
                 \<or> endswith name ''.tar.xz'' \<or> endswith name ''.tar''
         then extract_finish os path dest st (tar_extractall os path dest (world st))
         else if endswith name ''.gz''
         then extract_finish os path dest st (gunzip_copy os path dest (world st))
         else st\<lparr>status := UnsupportedFormat (path_suffix path)\<rparr>)"

subsection \<open>\<open>action_archive\<close>\<close>

text \<open>\<open>f.relative_to(base)\<close> raises \<open>ValueError\<close> unless \<open>f\<close> lies below \<open>base\<close>.\<close>

definition relative_to :: "path \<Rightarrow> path \<Rightarrow> path option" where
  "relative_to f base = (if prefix base f then Some (drop (length base) f) else None)"

text \<open>The two loops inside the \<open>with zipfile.ZipFile(...) as zf\<close> statement.\<close>

fun zip_add_files :: "'w os \<Rightarrow> path \<Rightarrow> path \<Rightarrow> path list \<Rightarrow> 'w \<Rightarrow> exn option \<times> 'w" where
  "zip_add_files os zf base [] w = (None, w)"
| "zip_add_files os zf base (f # fs) w =
     (case relative_to f base of
        None \<Rightarrow> (Some (Exn OtherException ''ValueError''), w)
      | Some arcname \<Rightarrow>
          (case zip_add os zf f arcname w of
             (Some e, w') \<Rightarrow> (Some e, w')
           | (None, w') \<Rightarrow> zip_add_files os zf base fs w'))"

fun zip_targets :: "'w os \<Rightarrow> path \<Rightarrow> path list \<Rightarrow> 'w \<Rightarrow> exn option \<times> 'w" where
  "zip_targets os zf [] w = (None, w)"
| "zip_targets os zf (t # ts) w =
     (case (case is_dir os w t of
              Inl e \<Rightarrow> (Some e, w)
            | Inr isdir \<Rightarrow>
                if isdir
                then (case rglob_all os w t of
                        Inl e \<Rightarrow> (Some e, w)
                      | Inr fs \<Rightarrow> zip_add_files os zf (parent t) fs w)
                else zip_add os zf t [path_name t] w) of
        (Some e, w') \<Rightarrow> (Some e, w')
      | (None, w') \<Rightarrow> zip_targets os zf ts w')"

text \<open>The \<open>with\<close> statement: the archive is closed also when the body raises.\<close>

definition write_zip :: "'w os \<Rightarrow> path \<Rightarrow> path list \<Rightarrow> 'w \<Rightarrow> exn option \<times> 'w" where
  "write_zip os out_path targets w =
     (case zip_open os out_path w of
        (Some e, w1) \<Rightarrow> (Some e, w1)
      | (None, w1) \<Rightarrow>
          (case zip_targets os out_path targets w1 of
             (r, w2) \<Rightarrow>
               (case zip_close os out_path w2 of
                  (Some e, w3) \<Rightarrow> (Some e, w3)
                | (None, w3) \<Rightarrow> (r, w3))))"

text \<open>The name typed into the dialog, completed: \<open>result if result.endswith(".zip") else result + ".zip"\<close>.\<close>

definition zip_name :: "string \<Rightarrow> string" where
  "zip_name result = (if endswith result ''.zip'' then result else result @ ''.zip'')"

text \<open>The callback \<open>handle\<close>; \<open>result\<close> is what the dialog returns, \<open>None\<close> when it is dismissed.\<close>

definition archive_handle :: "'w os \<Rightarrow> path list \<Rightarrow> string option \<Rightarrow> 'w app \<Rightarrow> 'w app" where
  "archive_handle os targets result st =
     (case result of
        None \<Rightarrow> st
      | Some r \<Rightarrow>
          if r = [] then st
          else
            let name = zip_name r;
                out_path = joinpath (current_dir st) name
            in (case write_zip os out_path targets (world st) of
                  (Some e, w') \<Rightarrow> st\<lparr>world := w', status := ArchiveError e\<rparr>
                | (None, w') \<Rightarrow>
                    (case refresh_table os (st\<lparr>world := w', selected := []\<rparr>) of
                       (Some e, st') \<Rightarrow> st'\<lparr>status := ArchiveError e\<rparr>
                     | (None, st') \<Rightarrow>
                         st'\<lparr>status := CreatedArchive name,
                             undo := push (undo st') (''zip '' @ name) (UndoZip out_path)\<rparr>)))"

definition action_archive :: "'w os \<Rightarrow> int \<Rightarrow> string option \<Rightarrow> 'w app \<Rightarrow> 'w app" where
  "action_archive os cursor_row result st =
     (let entry = selected_entry cursor_row st;
          targets = effective_targets cursor_row st
      in if entry \<noteq> None \<and> is_archive (the entry) \<and> selected st = []
         then extract_archive os (the entry) st
         else if targets = [] then st\<lparr>status := NoItemsToZip\<rparr>
         else archive_handle os targets result st)"

subsection \<open>The specification's wording, for comparison\<close>

text \<open>
  The precedence of the status codes as the specification lists it: untracked, then added,
  modified, deleted, renamed, else the marker \<open>~\<close>.
\<close>

definition spec_status_code :: "char \<Rightarrow> char \<Rightarrow> string" where
  "spec_status_code x y =
     (if x = CHR ''?'' \<and> y = CHR ''?'' then ''?''
      else case find (\<lambda>c. x = c \<or> y = c) ''AMDR'' of
             Some c \<Rightarrow> [c]
           | None \<Rightarrow> ''~'')"

text \<open>The first segment of a path text: everything before its first \<open>/\<close>.\<close>

definition first_segment :: "string \<Rightarrow> string" where
  "first_segment s = takeWhile (\<lambda>c. c \<noteq> CHR ''/'') s"








text \<open>
  The destination the specification's scenario expects for an archive: the name cut at its
  first dot that is not the leading character, so that \<open>data.tar.gz\<close> gives \<open>data\<close>.
\<close>

definition spec_base_name :: "path \<Rightarrow> string" where
  "spec_base_name p =
     (let n = path_name p in take 1 n @ takeWhile (\<lambda>c. c \<noteq> CHR ''.'') (drop 1 n))"

text \<open>
  The suffixes for which the specification names an extraction (zip container, tar family,
  bare gzip), and what it says an archive holds: a file under its bare name, every file
  below a directory under its path relative to the parent of the directory.
\<close>

definition tar_suffixes :: "string list" where
  "tar_suffixes = [''.tar.gz'', ''.tgz'', ''.tar.bz2'', ''.tar.xz'', ''.tar'']"

definition extractable_suffixes :: "string list" where
  "extractable_suffixes = ''.zip'' # tar_suffixes @ [''.gz'']"

definition spec_extract :: "'w os \<Rightarrow> path \<Rightarrow> path \<Rightarrow> 'w \<Rightarrow> exn option \<times> 'w" where
  "spec_extract os archive dest w =
     (let name = lower (path_name archive) in
      if endswith name ''.zip'' then zip_extractall os archive dest w
      else if \<exists>suf \<in> set tar_suffixes. endswith name suf then tar_extractall os archive dest w
      else gunzip_copy os archive dest w)"

datatype zip_call = ZipOpen path | ZipWrite path path path | ZipClose path

definition spec_zip_members ::
  "path \<Rightarrow> path list \<Rightarrow> (path \<Rightarrow> path list) \<Rightarrow> path list \<Rightarrow> zip_call list" where
  "spec_zip_members out dirs tree targets =
     concat (map (\<lambda>t. if t \<in> set dirs
                        then map (\<lambda>f. ZipWrite out f (drop (length (parent t)) f)) (tree t)
                        else [ZipWrite out t [path_name t]]) targets)"

text \<open>
  A world that records the calls made on the zip library, in their order: the directories
  are those of \<open>dirs\<close>, \<open>tree t\<close> is what lies below \<open>t\<close>, and each zip primitive succeeds
  and appends its call to the record. The other primitives are those of \<open>os0\<close>.
\<close>

definition recording ::
  "zip_call list os \<Rightarrow> path list \<Rightarrow> (path \<Rightarrow> path list) \<Rightarrow> zip_call list os" where
  "recording os0 dirs tree =
     os0\<lparr>path_stat :=
           (\<lambda>w p. Inr \<lparr>st_kind = (if p \<in> set dirs then Directory else Regular),
                          st_size = 0, st_mtime = 0\<rparr>),
         rglob_all := (\<lambda>w t. Inr (tree t)),
         zip_open := (\<lambda>out w. (None, w @ [ZipOpen out])),
         zip_add := (\<lambda>zf f arcname w. (None, w @ [ZipWrite zf f arcname])),
         zip_close := (\<lambda>zf w. (None, w @ [ZipClose zf]))\<rparr>"

subsection \<open>A small file system for running the model\<close>

text \<open>
  A world that is a list of paths with what lies at each, and primitives on it that are
  enough to run every method above on concrete inputs. Archives are opaque in it:
  extracting one creates the destination directory; a gzip stream is a two-byte header
  followed by the stored bytes. The outcome of the \<open>git\<close> subprocess is a parameter.
\<close>

datatype node = File string | Dir

type_synonym demo_fs = "(path \<times> node) list"

definition no_such_file :: exn where
  "no_such_file = Exn FileNotFoundError ''No such file or directory''"

definition demo_stat :: "demo_fs \<Rightarrow> path \<Rightarrow> exn + stat_result" where
  "demo_stat w p =
     (case map_of w p of
        None \<Rightarrow> Inl no_such_file
      | Some (File c) \<Rightarrow> Inr \<lparr>st_kind = Regular, st_size = int (length c), st_mtime = 0\<rparr>
      | Some Dir \<Rightarrow> Inr \<lparr>st_kind = Directory, st_size = 0, st_mtime = 0\<rparr>)"

definition demo_iterdir :: "demo_fs \<Rightarrow> path \<Rightarrow> exn + path list" where
  "demo_iterdir w d =
     (if map_of w d = Some Dir then Inr (filter (\<lambda>p. p \<noteq> d \<and> parent p = d) (map fst w))
      else Inl no_such_file)"

definition demo_rglob :: "demo_fs \<Rightarrow> path \<Rightarrow> exn + path list" where
  "demo_rglob w d = Inr (filter (\<lambda>p. strict_prefix d p) (map fst w))"

definition demo_move :: "path \<Rightarrow> path \<Rightarrow> demo_fs \<Rightarrow> exn option \<times> demo_fs" where
  "demo_move src dst w =
     (if map_of w src = None \<or> map_of w (parent dst) \<noteq> Some Dir then (Some no_such_file, w)
      else (None, map (\<lambda>(p, n). if prefix src p then (dst @ drop (length src) p, n) else (p, n)) w))"

definition demo_copy :: "path \<Rightarrow> path \<Rightarrow> demo_fs \<Rightarrow> exn option \<times> demo_fs" where
  "demo_copy src dst w =
     (if map_of w src = None \<or> map_of w (parent dst) \<noteq> Some Dir then (Some no_such_file, w)
      else (None, w @ map (\<lambda>(p, n). (dst @ drop (length src) p, n))
                         (filter (\<lambda>(p, n). prefix src p) w)))"

definition demo_remove :: "path \<Rightarrow> demo_fs \<Rightarrow> exn option \<times> demo_fs" where
  "demo_remove p w = (None, filter (\<lambda>(q, n). \<not> prefix p q) w)"

definition demo_mkdir :: "path \<Rightarrow> demo_fs \<Rightarrow> exn option \<times> demo_fs" where
  "demo_mkdir p w = (if map_of w p = None then (None, w @ [(p, Dir)]) else (None, w))"

definition demo_extractall :: "path \<Rightarrow> path \<Rightarrow> demo_fs \<Rightarrow> exn option \<times> demo_fs" where
  "demo_extractall src dest w =
     (if map_of w src = None then (Some no_such_file, w) else demo_mkdir dest w)"

definition demo_gunzip :: "path \<Rightarrow> path \<Rightarrow> demo_fs \<Rightarrow> exn option \<times> demo_fs" where
  "demo_gunzip src dest w =
     (case map_of w src of
        Some (File c) \<Rightarrow>
          if take 2 c = [CHR 0x1F, CHR 0x8B]
          then (None, filter (\<lambda>(q, n). q \<noteq> dest) w @ [(dest, File (drop 2 c))])
          else (Some (Exn OtherException ''Not a gzipped file''),
                filter (\<lambda>(q, n). q \<noteq> dest) w @ [(dest, File [])])
      | _ \<Rightarrow> (Some no_such_file, w))"

definition demo_os :: "proc_outcome \<Rightarrow> demo_fs os" where
  "demo_os git =
     \<lparr>home = [''/'', ''home''],
      subprocess_run = (\<lambda>w argv cwd timeout. git),
      path_stat = demo_stat,
      iterdir = demo_iterdir,
      rglob_all = demo_rglob,
      strftime_now = (\<lambda>w. ''20240101_120000_000000''),
      mkdir_parents = demo_mkdir,
      shutil_move = demo_move,
      shutil_copytree = demo_copy,
      shutil_copy2 = demo_copy,
      shutil_rmtree = demo_remove,
      unlink_missing_ok = demo_remove,
      path_rmdir = demo_remove,
      path_rename = demo_move,
      zip_extractall = demo_extractall,
      tar_extractall = demo_extractall,
      gunzip_copy = demo_gunzip,
      zip_open = (\<lambda>out w. (None, filter (\<lambda>(q, n). q \<noteq> out) w @ [(out, File [])])),
      zip_add = (\<lambda>zf f arcname w. (None, w)),
      zip_close = (\<lambda>zf w. (None, w))\<rparr>"

text \<open>A home directory with a project and a second directory, and an application state on it.\<close>

definition demo_world :: demo_fs where
  "demo_world =
     [([''/''], Dir),
      ([''/'', ''home''], Dir),
      ([''/'', ''home'', ''notes.txt''], File ''remember''),
      ([''/'', ''home'', ''Zeta.md''], File ''z''),
      ([''/'', ''home'', ''.profile''], File ''export''),
      ([''/'', ''home'', ''work''], Dir),
      ([''/'', ''home'', ''work'', ''main.py''], File ''print''),
      ([''/'', ''home'', ''data.tar.gz''], File ''tarball''),
      ([''/'', ''home'', ''note.gz''], File (CHR 0x1F # CHR 0x8B # ''plain text'')),
      ([''/'', ''home'', ''other''], Dir)]"

definition demo_app :: "demo_fs app" where
  "demo_app =
     \<lparr>world = demo_world, current_dir = [''/'', ''home''], show_hidden = False,
      clipboard = None, clipboard_op = Copy, sort_mode = SortName, filter_text = [],
      row_entries = [], row_count = 0, selected = [], undo = [], status = Blank\<rparr>"

text \<open>Named paths, states and worlds of this file system, for the concrete runs below.\<close>

definition demo_git_missing :: proc_outcome where
  "demo_git_missing = Raised (Exn FileNotFoundError ''git'')"

definition notes_txt :: path where
  "notes_txt = [''/'', ''home'', ''notes.txt'']"

definition other_dir :: path where
  "other_dir = [''/'', ''home'', ''other'']"

definition demo_cut :: "demo_fs app" where
  "demo_cut = demo_app\<lparr>clipboard := Some notes_txt, clipboard_op := Cut\<rparr>"

definition demo_cut_elsewhere :: "demo_fs app" where
  "demo_cut_elsewhere = demo_cut\<lparr>current_dir := other_dir\<rparr>"

definition demo_copy_elsewhere :: "demo_fs app" where
  "demo_copy_elsewhere = demo_app\<lparr>clipboard := Some notes_txt, current_dir := other_dir\<rparr>"

definition demo_world_moved :: demo_fs where
  "demo_world_moved =
     [([''/''], Dir),
      ([''/'', ''home''], Dir),
      ([''/'', ''home'', ''other'', ''notes.txt''], File ''remember''),
      ([''/'', ''home'', ''Zeta.md''], File ''z''),
      ([''/'', ''home'', ''.profile''], File ''export''),
      ([''/'', ''home'', ''work''], Dir),
      ([''/'', ''home'', ''work'', ''main.py''], File ''print''),
      ([''/'', ''home'', ''data.tar.gz''], File ''tarball''),
      ([''/'', ''home'', ''note.gz''], File (CHR 0x1F # CHR 0x8B # ''plain text'')),
      ([''/'', ''home'', ''other''], Dir)]"

definition demo_failing_undo :: "demo_fs app" where
  "demo_failing_undo =
     demo_app\<lparr>undo := [(''create a'', UndoCreate [''/'', ''home'', ''a'']),
                       (''move ghost'', UndoMove [''/'', ''home'', ''other'', ''ghost'']
                                                 [''/'', ''home'', ''ghost''])]\<rparr>"

definition ghost :: path where
  "ghost = [''/'', ''home'', ''ghost'']"

definition zeta_md :: path where
  "zeta_md = [''/'', ''home'', ''Zeta.md'']"

definition demo_batch :: "demo_fs app" where
  "demo_batch = demo_app\<lparr>selected := [notes_txt, ghost, zeta_md]\<rparr>"

definition trashed_notes :: path where
  "trashed_notes = [''/'', ''home'', ''.shellman_trash'', ''20240101_120000_000000_notes.txt'']"

definition demo_world_trash :: demo_fs where
  "demo_world_trash = demo_world @ [([''/'', ''home'', ''.shellman_trash''], Dir)]"

definition demo_world_one_trashed :: demo_fs where
  "demo_world_one_trashed =
     [([''/''], Dir),
      ([''/'', ''home''], Dir),
      (trashed_notes, File ''remember''),
      ([''/'', ''home'', ''Zeta.md''], File ''z''),
      ([''/'', ''home'', ''.profile''], File ''export''),
      ([''/'', ''home'', ''work''], Dir),
      ([''/'', ''home'', ''work'', ''main.py''], File ''print''),
      ([''/'', ''home'', ''data.tar.gz''], File ''tarball''),
      ([''/'', ''home'', ''note.gz''], File (CHR 0x1F # CHR 0x8B # ''plain text'')),
      ([''/'', ''home'', ''other''], Dir),
      ([''/'', ''home'', ''.shellman_trash''], Dir)]"

definition demo_raw :: "path list" where
  "demo_raw =
     [[''/'', ''home'', ''notes.txt''], [''/'', ''home'', ''Zeta.md''],
      [''/'', ''home'', ''.profile''], [''/'', ''home'', ''work''],
      [''/'', ''home'', ''data.tar.gz''], [''/'', ''home'', ''note.gz''],
      [''/'', ''home'', ''other'']]"

definition demo_rows :: "path list" where
  "demo_rows =
     [[''/'', ''home'', ''other''], [''/'', ''home'', ''work''],
      [''/'', ''home'', ''data.tar.gz''], [''/'', ''home'', ''note.gz''],
      [''/'', ''home'', ''notes.txt''], [''/'', ''home'', ''Zeta.md'']]"

definition data_tar_gz :: path where
  "data_tar_gz = [''/'', ''home'', ''data.tar.gz'']"

definition note_gz :: path where
  "note_gz = [''/'', ''home'', ''note.gz'']"

definition demo_listed :: "demo_fs app" where
  "demo_listed = demo_app\<lparr>row_entries := demo_rows, row_count := 6\<rparr>"

definition demo_world_untarred :: demo_fs where
  "demo_world_untarred = demo_world @ [([''/'', ''home'', ''data.tar''], Dir)]"

definition demo_world_gunzipped :: demo_fs where
  "demo_world_gunzipped = demo_world @ [([''/'', ''home'', ''note''], File ''plain text'')]"

definition porcelain_out :: string where
  "porcelain_out =
     '' M src/app/main.py'' @ [CHR 0x0A] @ ''R  old.txt -> new/dir.txt'' @ [CHR 0x0A]
     @ ''?? docs/'' @ [CHR 0x0A] @ ''AM src/x'' @ [CHR 0x0A]"

text \<open>
  The same file system in a directory that can be listed but not searched: \<open>iterdir\<close> gives
  the names, and every \<open>stat\<close> of an entry is refused.
\<close>

definition permission_denied :: exn where
  "permission_denied = Exn PermissionError ''Permission denied''"

definition locked_os :: "demo_fs os" where
  "locked_os = (demo_os demo_git_missing)\<lparr>path_stat := (\<lambda>w p. Inl permission_denied)\<rparr>"

text \<open>The listing with the archive itself as the only selected entry.\<close>

definition demo_archive_selected :: "demo_fs app" where
  "demo_archive_selected = demo_listed\<lparr>selected := [data_tar_gz]\<rparr>"

text \<open>A recording world with one directory and what lies below it, and a state on it.\<close>

definition work_dir :: path where
  "work_dir = [''/'', ''home'', ''work'']"

definition demo_tree :: "path \<Rightarrow> path list" where
  "demo_tree t = (if t = work_dir then [work_dir @ [''main.py'']] else [])"

definition quiet_os :: "zip_call list os" where
  "quiet_os =
     \<lparr>home = [''/'', ''home''],
      subprocess_run = (\<lambda>w argv cwd timeout. demo_git_missing),
      path_stat = (\<lambda>w p. Inl no_such_file),
      iterdir = (\<lambda>w d. Inr []),
      rglob_all = (\<lambda>w t. Inr []),
      strftime_now = (\<lambda>w. []),
      mkdir_parents = (\<lambda>p w. (None, w)),
      shutil_move = (\<lambda>a b w. (None, w)),
      shutil_copytree = (\<lambda>a b w. (None, w)),
      shutil_copy2 = (\<lambda>a b w. (None, w)),
      shutil_rmtree = (\<lambda>p w. (None, w)),
      unlink_missing_ok = (\<lambda>p w. (None, w)),
      path_rmdir = (\<lambda>p w. (None, w)),
      path_rename = (\<lambda>a b w. (None, w)),
      zip_extractall = (\<lambda>a b w. (None, w)),
      tar_extractall = (\<lambda>a b w. (None, w)),
      gunzip_copy = (\<lambda>a b w. (None, w)),
      zip_open = (\<lambda>out w. (None, w)),
      zip_add = (\<lambda>zf f arcname w. (None, w)),
      zip_close = (\<lambda>zf w. (None, w))\<rparr>"

definition demo_recorded :: "zip_call list app" where
  "demo_recorded =
     \<lparr>world = [], current_dir = [''/'', ''home''], show_hidden = False,
      clipboard = None, clipboard_op = Copy, sort_mode = SortName, filter_text = [],
      row_entries = [], row_count = 0, selected = [work_dir, notes_txt], undo = [],
      status = Blank\<rparr>"

section \<open>Properties\<close>

subsection \<open>The undo stack and \<open>action_undo\<close>\<close>

text \<open>\<open>refresh_table\<close> reads the world and touches only the table and the status bar.\<close>

lemma refresh_table_keeps:
  assumes "refresh_table os st = (r, st')"
  shows "world st' = world st" "undo st' = undo st" "clipboard st' = clipboard st"
    "clipboard_op st' = clipboard_op st" "selected st' = selected st"
    "current_dir st' = current_dir st"
  using assms
  by (auto simp: refresh_table_def Let_def split: sum.splits if_splits prod.splits option.splits)

lemma pop_push: "pop (push s d f) = (Some (d, f), s)"
  by (simp add: pop_def push_def)

lemma pop_Nil: "pop [] = (None, [])"
  by (simp add: pop_def)

lemma action_undo_top:
  assumes "undo st = push s d f"
  shows "undo (action_undo os st) = s"
    and "world (action_undo os st) = snd (run_undo os f (world st))"
proof -
  obtain r w' where run: "run_undo os f (world st) = (r, w')" by (cases "run_undo os f (world st)")
  obtain x st' where rt: "refresh_table os (st\<lparr>world := w', undo := s\<rparr>) = (x, st')"
    by (cases "refresh_table os (st\<lparr>world := w', undo := s\<rparr>)")
  note k = refresh_table_keeps[OF rt]
  show "undo (action_undo os st) = s"
    using assms run rt k by (cases r; cases x) (simp_all add: action_undo_def pop_push)
  show "world (action_undo os st) = snd (run_undo os f (world st))"
    using assms run rt k by (cases r; cases x) (simp_all add: action_undo_def pop_push)
qed

lemma action_undo_empty:
  assumes "undo st = []"
  shows "action_undo os st = st\<lparr>status := NothingToUndo\<rparr>"
  using assms by (simp add: action_undo_def pop_Nil)

text \<open>
  Claim C6. The undo stack is a single stack used last in, first out. After the operations
  A and then B were pushed on a fresh stack, the first \<open>action_undo\<close> runs the inverse of B
  on the world, the second runs the inverse of A on the world the first one left, and the
  third finds the stack empty: it reports that there is nothing to undo and runs no inverse
  (the state is the one before, but for the message). On any stack, two undos remove B and
  then A and leave what was below; \<open>pop\<close> on the empty stack returns nothing.
\<close>

theorem undo_stack_lifo:
  "(let st2 = st\<lparr>undo := push (push [] dA fA) dB fB\<rparr>;
        u1 = action_undo os st2;
        u2 = action_undo os u1;
        u3 = action_undo os u2
    in world u1 = snd (run_undo os fB (world st)) \<and> undo u1 = [(dA, fA)]
     \<and> world u2 = snd (run_undo os fA (world u1)) \<and> undo u2 = []
     \<and> u3 = u2\<lparr>status := NothingToUndo\<rparr> \<and> world u3 = world u2 \<and> undo u3 = [])
   \<and> undo (action_undo os (st\<lparr>undo := push (push s dA fA) dB fB\<rparr>)) = push s dA fA
   \<and> undo (action_undo os (action_undo os (st\<lparr>undo := push (push s dA fA) dB fB\<rparr>))) = s
   \<and> pop (push (push s dA fA) dB fB) = (Some (dB, fB), push s dA fA)
   \<and> pop ([] :: undo_stack) = (None, [])"
proof -
  define st2 where "st2 = st\<lparr>undo := push (push [] dA fA) dB fB\<rparr>"
  define u1 where "u1 = action_undo os st2"
  define u2 where "u2 = action_undo os u1"
  define u3 where "u3 = action_undo os u2"
  have s2: "undo st2 = push (push [] dA fA) dB fB" "world st2 = world st"
    by (simp_all add: st2_def)
  have a1: "undo u1 = push [] dA fA" "world u1 = snd (run_undo os fB (world st))"
    using action_undo_top[OF s2(1), of os] s2(2) by (simp_all add: u1_def)
  have a2: "undo u2 = []" "world u2 = snd (run_undo os fA (world u1))"
    using action_undo_top[OF a1(1), of os] by (simp_all add: u2_def)
  have a3: "u3 = u2\<lparr>status := NothingToUndo\<rparr>"
    using action_undo_empty[OF a2(1), of os] by (simp add: u3_def)
  have chain: "world u1 = snd (run_undo os fB (world st)) \<and> undo u1 = [(dA, fA)]
     \<and> world u2 = snd (run_undo os fA (world u1)) \<and> undo u2 = []
     \<and> u3 = u2\<lparr>status := NothingToUndo\<rparr> \<and> world u3 = world u2 \<and> undo u3 = []"
    using a1 a2 a3 by (simp add: push_def)
  define t2 where "t2 = st\<lparr>undo := push (push s dA fA) dB fB\<rparr>"
  have t: "undo t2 = push (push s dA fA) dB fB" by (simp add: t2_def)
  have b1: "undo (action_undo os t2) = push s dA fA"
    using action_undo_top(1)[OF t] .
  have b2: "undo (action_undo os (action_undo os t2)) = s"
    using action_undo_top(1)[OF b1] .
  show ?thesis
    using chain b1 b2 unfolding st2_def u1_def u2_def u3_def t2_def Let_def
    by (simp add: pop_push pop_Nil)
qed

text \<open>
  Claim C7. \<open>action_undo\<close> pops the entry before it runs the inverse: whatever the inverse
  does, the stack afterwards is the stack before without its last entry. When the inverse
  raises, the entry is neither run again nor pushed back; the failure is reported in the
  status bar, the world is the one the failed inverse left, and the stack holds exactly one
  entry fewer.
\<close>

theorem undo_failed_inverse:
  "undo (action_undo os st) = butlast (undo st)
 \<and> (undo st = s @ [(d, f)] \<and> run_undo os f (world st) = (Some e, w')
      \<longrightarrow> action_undo os st = st\<lparr>world := w', undo := s, status := UndoFailed e\<rparr>
        \<and> length (undo (action_undo os st)) + 1 = length (undo st))"
proof (intro conjI impI)
  show "undo (action_undo os st) = butlast (undo st)"
  proof (cases "undo st" rule: rev_cases)
    case Nil
    then show ?thesis by (simp add: action_undo_empty)
  next
    case (snoc s' x)
    obtain d' f' where x: "x = (d', f')" by (cases x)
    have "undo st = push s' d' f'" using snoc x by (simp add: push_def)
    from action_undo_top(1)[OF this] show ?thesis using snoc by simp
  qed
next
  assume h: "undo st = s @ [(d, f)] \<and> run_undo os f (world st) = (Some e, w')"
  then show "action_undo os st = st\<lparr>world := w', undo := s, status := UndoFailed e\<rparr>"
    by (simp add: action_undo_def pop_def)
  with h show "length (undo (action_undo os st)) + 1 = length (undo st)"
    by simp
qed

text \<open>An undo whose move back fails, on a stack of two entries.\<close>

theorem undo_failed_inverse_witness:
  "undo demo_failing_undo
     = [(''create a'', UndoCreate [''/'', ''home'', ''a''])]
       @ [(''move ghost'', UndoMove [''/'', ''home'', ''other'', ''ghost''] [''/'', ''home'', ''ghost''])]
   \<and> run_undo (demo_os demo_git_missing)
        (UndoMove [''/'', ''home'', ''other'', ''ghost''] [''/'', ''home'', ''ghost''])
        (world demo_failing_undo) = (Some no_such_file, demo_world)
   \<and> action_undo (demo_os demo_git_missing) demo_failing_undo
        = demo_failing_undo\<lparr>world := demo_world,
                              undo := [(''create a'', UndoCreate [''/'', ''home'', ''a''])],
                              status := UndoFailed no_such_file\<rparr>
   \<and> length (undo (action_undo (demo_os demo_git_missing) demo_failing_undo)) + 1
        = length (undo demo_failing_undo)"
proof -
  have h1: "undo demo_failing_undo
     = [(''create a'', UndoCreate [''/'', ''home'', ''a''])]
       @ [(''move ghost'', UndoMove [''/'', ''home'', ''other'', ''ghost''] [''/'', ''home'', ''ghost''])]"
    by (simp add: demo_failing_undo_def)
  have h2: "run_undo (demo_os demo_git_missing)
        (UndoMove [''/'', ''home'', ''other'', ''ghost''] [''/'', ''home'', ''ghost''])
        (world demo_failing_undo) = (Some no_such_file, demo_world)"
    by code_simp
  from undo_failed_inverse[THEN conjunct2, THEN mp, OF conjI[OF h1 h2]] h1 h2
  show ?thesis by blast
qed


subsection \<open>The clipboard and \<open>action_paste_item\<close>\<close>

lemma paste_finish_keeps:
  "world (paste_finish os st) = world st" "undo (paste_finish os st) = undo st"
  "clipboard (paste_finish os st) = clipboard st"
  "clipboard_op (paste_finish os st) = clipboard_op st"
proof -
  obtain x st' where rt: "refresh_table os st = (x, st')" by (cases "refresh_table os st")
  note k = refresh_table_keeps[OF rt]
  show "world (paste_finish os st) = world st" "undo (paste_finish os st) = undo st"
    "clipboard (paste_finish os st) = clipboard st"
    "clipboard_op (paste_finish os st) = clipboard_op st"
    using rt k by (cases x; simp add: paste_finish_def)+
qed

text \<open>
  Claim C3. With a source on the clipboard, let the destination be the current directory
  joined with the name of the source. If the destination equals the source, pasting changes
  nothing but the status bar, which reports that source and destination are the same, and
  the clipboard stays as it was. If the clipboard holds a cut source, the destination
  differs and the move succeeds, then the world is the one after the move, the clipboard is
  empty, and the undo stack has one more entry whose inverse moves the destination back to
  the path the source was cut from: the next \<open>action_undo\<close> runs exactly this move and
  takes the entry off. If the clipboard holds a copied source, it is still on the clipboard
  after the paste, whether the copy succeeded or not, so that it can be pasted again.
\<close>

theorem paste_clipboard_semantics:
  assumes clip: "clipboard st = Some src"
  defines "dst \<equiv> joinpath (current_dir st) (path_name src)"
  shows "(dst = src \<longrightarrow> action_paste_item os st = st\<lparr>status := SameLocation\<rparr>
                       \<and> clipboard (action_paste_item os st) = Some src)
       \<and> (dst \<noteq> src \<and> clipboard_op st = Cut \<and> shutil_move os src dst (world st) = (None, w')
            \<longrightarrow> world (action_paste_item os st) = w'
              \<and> clipboard (action_paste_item os st) = None
              \<and> undo (action_paste_item os st) = undo st @ [(''move '' @ path_name src, UndoMove dst src)]
              \<and> world (action_undo os (action_paste_item os st)) = snd (shutil_move os dst src w')
              \<and> undo (action_undo os (action_paste_item os st)) = undo st)
       \<and> (dst \<noteq> src \<and> clipboard_op st = Copy
            \<longrightarrow> clipboard (action_paste_item os st) = Some src
              \<and> clipboard_op (action_paste_item os st) = Copy)"
proof (intro conjI impI)
  assume "dst = src"
  then show "action_paste_item os st = st\<lparr>status := SameLocation\<rparr>"
    using clip by (simp add: action_paste_item_def dst_def)
  then show "clipboard (action_paste_item os st) = Some src"
    using clip by simp
next
  assume h: "dst \<noteq> src \<and> clipboard_op st = Cut \<and> shutil_move os src dst (world st) = (None, w')"
  define st1 where "st1 = st\<lparr>world := w', clipboard := None, status := Moved (path_name src),
      undo := push (undo st) (''move '' @ path_name src) (UndoMove dst src)\<rparr>"
  have eq: "action_paste_item os st = paste_finish os st1"
    using clip h by (simp add: action_paste_item_def dst_def st1_def)
  show w: "world (action_paste_item os st) = w'"
    by (simp add: eq paste_finish_keeps st1_def)
  show "clipboard (action_paste_item os st) = None"
    by (simp add: eq paste_finish_keeps st1_def)
  show u: "undo (action_paste_item os st) = undo st @ [(''move '' @ path_name src, UndoMove dst src)]"
    by (simp add: eq paste_finish_keeps st1_def push_def)
  have p: "undo (action_paste_item os st) = push (undo st) (''move '' @ path_name src) (UndoMove dst src)"
    using u by (simp add: push_def)
  show "world (action_undo os (action_paste_item os st)) = snd (shutil_move os dst src w')"
    using action_undo_top(2)[OF p, of os] w by simp
  show "undo (action_undo os (action_paste_item os st)) = undo st"
    using action_undo_top(1)[OF p] .
next
  assume h: "dst \<noteq> src \<and> clipboard_op st = Copy"
  obtain r w' where c: "(case is_dir os (world st) src of
                     Inl e \<Rightarrow> (Some e, world st)
                   | Inr isdir \<Rightarrow>
                       if isdir then shutil_copytree os src dst (world st)
                       else shutil_copy2 os src dst (world st)) = (r, w')"
    by (cases "(case is_dir os (world st) src of
                     Inl e \<Rightarrow> (Some e, world st)
                   | Inr isdir \<Rightarrow>
                       if isdir then shutil_copytree os src dst (world st)
                       else shutil_copy2 os src dst (world st))")
  show "clipboard (action_paste_item os st) = Some src"
    using clip h c by (cases r) (simp_all add: action_paste_item_def dst_def[symmetric] paste_finish_keeps)
  show "clipboard_op (action_paste_item os st) = Copy"
    using clip h c by (cases r) (simp_all add: action_paste_item_def dst_def[symmetric] paste_finish_keeps)
qed

text \<open>A file cut in the home directory: pasted where it is, pasted into another directory and undone, and a copy pasted.\<close>

theorem paste_clipboard_semantics_witness:
  "clipboard demo_cut = Some notes_txt
 \<and> joinpath (current_dir demo_cut) (path_name notes_txt) = notes_txt
 \<and> action_paste_item (demo_os demo_git_missing) demo_cut = demo_cut\<lparr>status := SameLocation\<rparr>
 \<and> clipboard (action_paste_item (demo_os demo_git_missing) demo_cut) = Some notes_txt
 \<and> joinpath (current_dir demo_cut_elsewhere) (path_name notes_txt) = other_dir @ [''notes.txt'']
 \<and> shutil_move (demo_os demo_git_missing) notes_txt (other_dir @ [''notes.txt''])
      (world demo_cut_elsewhere) = (None, demo_world_moved)
 \<and> world (action_paste_item (demo_os demo_git_missing) demo_cut_elsewhere) = demo_world_moved
 \<and> clipboard (action_paste_item (demo_os demo_git_missing) demo_cut_elsewhere) = None
 \<and> undo (action_paste_item (demo_os demo_git_missing) demo_cut_elsewhere)
      = [(''move notes.txt'', UndoMove (other_dir @ [''notes.txt'']) notes_txt)]
 \<and> world (action_undo (demo_os demo_git_missing)
            (action_paste_item (demo_os demo_git_missing) demo_cut_elsewhere)) = demo_world
 \<and> undo (action_undo (demo_os demo_git_missing)
            (action_paste_item (demo_os demo_git_missing) demo_cut_elsewhere)) = []
 \<and> clipboard (action_paste_item (demo_os demo_git_missing) demo_copy_elsewhere) = Some notes_txt
 \<and> clipboard_op (action_paste_item (demo_os demo_git_missing) demo_copy_elsewhere) = Copy"
proof -
  let ?G = "demo_os demo_git_missing"
  let ?D = "other_dir @ [''notes.txt'']"
  have c1: "clipboard demo_cut = Some notes_txt" by (simp add: demo_cut_def)
  have c2: "clipboard demo_cut_elsewhere = Some notes_txt"
    by (simp add: demo_cut_elsewhere_def demo_cut_def)
  have c3: "clipboard demo_copy_elsewhere = Some notes_txt"
    by (simp add: demo_copy_elsewhere_def)
  have eq0: "joinpath (current_dir demo_cut) (path_name notes_txt) = notes_txt" by code_simp
  have dst: "joinpath (current_dir demo_cut_elsewhere) (path_name notes_txt) = ?D" by code_simp
  have dst': "joinpath (current_dir demo_copy_elsewhere) (path_name notes_txt) = ?D" by code_simp
  have ne: "?D \<noteq> notes_txt" by code_simp
  have isc: "clipboard_op demo_cut_elsewhere = Cut"
    by (simp add: demo_cut_elsewhere_def demo_cut_def)
  have cpy: "clipboard_op demo_copy_elsewhere = Copy"
    by (simp add: demo_copy_elsewhere_def demo_app_def)
  have mv: "shutil_move ?G notes_txt ?D (world demo_cut_elsewhere) = (None, demo_world_moved)"
    by code_simp
  have bk: "snd (shutil_move ?G ?D notes_txt demo_world_moved) = demo_world" by code_simp
  have up: "undo demo_cut_elsewhere = []"
    by (simp add: demo_cut_elsewhere_def demo_cut_def demo_app_def)
  have nm: "path_name notes_txt = ''notes.txt''" by code_simp
  note a = paste_clipboard_semantics[OF c1, of ?G, THEN conjunct1, THEN mp, OF eq0]
  note b = paste_clipboard_semantics[OF c2, of ?G demo_world_moved, THEN conjunct2,
              THEN conjunct1, unfolded dst, THEN mp, OF conjI[OF ne conjI[OF isc mv]]]
  note c = paste_clipboard_semantics[OF c3, of ?G, THEN conjunct2, THEN conjunct2,
              unfolded dst', THEN mp, OF conjI[OF ne cpy]]
  show ?thesis
    using c1 eq0 a dst mv b[unfolded up bk nm] c by simp
qed


subsection \<open>\<open>action_delete\<close>\<close>

lemma delete_loop_append:
  "delete_loop os pre acc w0 = (None, moves, w1) \<Longrightarrow>
   delete_loop os (pre @ rest) acc w0 = delete_loop os rest moves w1"
proof (induction pre arbitrary: acc w0)
  case Nil
  then show ?case by simp
next
  case (Cons a pre)
  then show ?case
    by (auto simp: Let_def split: prod.splits option.splits)
qed

lemma delete_loop_moves:
  "delete_loop os ts acc w = (None, moves, w') \<Longrightarrow> map snd moves = map snd acc @ ts"
proof (induction ts arbitrary: acc w)
  case Nil
  then show ?case by simp
next
  case (Cons a ts)
  then show ?case
    by (auto simp: Let_def split: prod.splits option.splits)
qed

lemma action_delete_push_only_after_all:
  "undo (snd (action_delete os cursor_row confirmed st)) = undo st
   \<or> (\<exists>w0 moves w1 label.
        mkdir_parents os (TRASH_DIR os) (world st) = (None, w0)
      \<and> delete_loop os (effective_targets cursor_row st) [] w0 = (None, moves, w1)
      \<and> map snd moves = effective_targets cursor_row st
      \<and> world (snd (action_delete os cursor_row confirmed st)) = w1
      \<and> undo (snd (action_delete os cursor_row confirmed st))
          = undo st @ [(''delete '' @ label, UndoDelete moves)])"
proof -
  define targets where "targets = effective_targets cursor_row st"
  obtain m w0 where mk: "mkdir_parents os (TRASH_DIR os) (world st) = (m, w0)"
    by (cases "mkdir_parents os (TRASH_DIR os) (world st)")
  obtain x moves w1 where lp: "delete_loop os targets [] w0 = (x, moves, w1)"
    by (cases "delete_loop os targets [] w0")
  obtain r st' where rt: "refresh_table os (st\<lparr>world := w1, selected := []\<rparr>) = (r, st')"
    by (cases "refresh_table os (st\<lparr>world := w1, selected := []\<rparr>)")
  note k = refresh_table_keeps[OF rt]
  show ?thesis
  proof (cases "targets \<noteq> [] \<and> confirmed \<and> m = None \<and> x = None \<and> r = None")
    case True
    have mv: "map snd moves = targets" using delete_loop_moves[of os targets "[]" w0 moves w1] lp True by simp
    have "undo (snd (action_delete os cursor_row confirmed st))
          = undo st @ [(''delete '' @ (if length targets = 1 then path_name (hd targets)
                     else show_nat (length targets) @ '' items''), UndoDelete moves)]"
      and "world (snd (action_delete os cursor_row confirmed st)) = w1"
      using True mk lp rt k by (simp_all add: action_delete_def Let_def targets_def[symmetric] push_def)
    then show ?thesis using True mk lp mv unfolding targets_def by blast
  next
    case False
    have "undo (snd (action_delete os cursor_row confirmed st)) = undo st"
      using False mk lp rt k
      by (cases m; cases x; cases r)
         (auto simp: action_delete_def Let_def targets_def[symmetric] split: prod.splits)
    then show ?thesis by simp
  qed
qed

text \<open>
  Claim C4. Deleting a batch moves the entries to the trash one by one and is not a
  transaction. When the entries before \<open>entry\<close> were moved and the move of \<open>entry\<close> raises,
  \<open>action_delete\<close> stops there: the world is the one the failed move left behind the moves
  already made (these are exactly the entries before \<open>entry\<close>; none is moved back, and no
  entry behind \<open>entry\<close> is touched), the status bar names \<open>entry\<close> with the exception, the
  selection and the undo stack are as before. In general the undo stack is unchanged, or
  every entry of the batch was moved and the one entry pushed records all these moves.
\<close>

theorem delete_partial_failure:
  "(effective_targets cursor_row st = pre @ entry # post
      \<and> mkdir_parents os (TRASH_DIR os) (world st) = (None, w0)
      \<and> delete_loop os pre [] w0 = (None, moves, w1)
      \<and> shutil_move os entry
            (joinpath (TRASH_DIR os) (strftime_now os w1 @ ''_'' @ path_name entry)) w1
          = (Some e, w2)
      \<longrightarrow> action_delete os cursor_row True st
            = (None, st\<lparr>world := w2, status := ErrorDeleting (path_name entry) e\<rparr>)
        \<and> map snd moves = pre
        \<and> undo (snd (action_delete os cursor_row True st)) = undo st)
 \<and> (undo (snd (action_delete os cursor_row confirmed st)) = undo st
      \<or> (\<exists>v0 ms v1 label.
             mkdir_parents os (TRASH_DIR os) (world st) = (None, v0)
           \<and> delete_loop os (effective_targets cursor_row st) [] v0 = (None, ms, v1)
           \<and> map snd ms = effective_targets cursor_row st
           \<and> world (snd (action_delete os cursor_row confirmed st)) = v1
           \<and> undo (snd (action_delete os cursor_row confirmed st))
               = undo st @ [(''delete '' @ label, UndoDelete ms)]))"
proof (intro conjI impI)
  assume h: "effective_targets cursor_row st = pre @ entry # post
      \<and> mkdir_parents os (TRASH_DIR os) (world st) = (None, w0)
      \<and> delete_loop os pre [] w0 = (None, moves, w1)
      \<and> shutil_move os entry
            (joinpath (TRASH_DIR os) (strftime_now os w1 @ ''_'' @ path_name entry)) w1
          = (Some e, w2)"
  then have pre_ok: "delete_loop os pre [] w0 = (None, moves, w1)" by simp
  have "delete_loop os (pre @ entry # post) [] w0 = delete_loop os (entry # post) moves w1"
    using delete_loop_append[OF pre_ok] .
  also have "\<dots> = (Some (path_name entry, e), moves, w2)"
    using h by (simp add: Let_def)
  finally have loop:
    "delete_loop os (pre @ entry # post) [] w0 = (Some (path_name entry, e), moves, w2)" .
  show a: "action_delete os cursor_row True st
           = (None, st\<lparr>world := w2, status := ErrorDeleting (path_name entry) e\<rparr>)"
    using h loop by (simp add: action_delete_def Let_def)
  show "map snd moves = pre" using delete_loop_moves[OF pre_ok] by simp
  show "undo (snd (action_delete os cursor_row True st)) = undo st"
    unfolding a by simp
next
  show "undo (snd (action_delete os cursor_row confirmed st)) = undo st
      \<or> (\<exists>v0 ms v1 label.
             mkdir_parents os (TRASH_DIR os) (world st) = (None, v0)
           \<and> delete_loop os (effective_targets cursor_row st) [] v0 = (None, ms, v1)
           \<and> map snd ms = effective_targets cursor_row st
           \<and> world (snd (action_delete os cursor_row confirmed st)) = v1
           \<and> undo (snd (action_delete os cursor_row confirmed st))
               = undo st @ [(''delete '' @ label, UndoDelete ms)])"
    by (rule action_delete_push_only_after_all)
qed

text \<open>A batch of three whose second entry does not exist: the first stays in the trash, the third stays where it is.\<close>

theorem delete_partial_failure_witness:
  "effective_targets 0 demo_batch = [notes_txt] @ ghost # [zeta_md]
 \<and> mkdir_parents (demo_os demo_git_missing) (TRASH_DIR (demo_os demo_git_missing))
      (world demo_batch) = (None, demo_world_trash)
 \<and> delete_loop (demo_os demo_git_missing) [notes_txt] [] demo_world_trash
      = (None, [(trashed_notes, notes_txt)], demo_world_one_trashed)
 \<and> shutil_move (demo_os demo_git_missing) ghost
      (joinpath (TRASH_DIR (demo_os demo_git_missing))
         (strftime_now (demo_os demo_git_missing) demo_world_one_trashed @ ''_'' @ path_name ghost))
      demo_world_one_trashed = (Some no_such_file, demo_world_one_trashed)
 \<and> action_delete (demo_os demo_git_missing) 0 True demo_batch
      = (None, demo_batch\<lparr>world := demo_world_one_trashed,
                            status := ErrorDeleting (path_name ghost) no_such_file\<rparr>)
 \<and> map snd [(trashed_notes, notes_txt)] = [notes_txt]
 \<and> undo (snd (action_delete (demo_os demo_git_missing) 0 True demo_batch)) = undo demo_batch
 \<and> map_of demo_world_one_trashed zeta_md = Some (File ''z'')
 \<and> map_of demo_world_one_trashed notes_txt = None"
proof -
  let ?G = "demo_os demo_git_missing"
  have h1: "effective_targets 0 demo_batch = [notes_txt] @ ghost # [zeta_md]" by code_simp
  have h2: "mkdir_parents ?G (TRASH_DIR ?G) (world demo_batch) = (None, demo_world_trash)"
    by code_simp
  have h3: "delete_loop ?G [notes_txt] [] demo_world_trash
      = (None, [(trashed_notes, notes_txt)], demo_world_one_trashed)"
    by code_simp
  have h4: "shutil_move ?G ghost
      (joinpath (TRASH_DIR ?G) (strftime_now ?G demo_world_one_trashed @ ''_'' @ path_name ghost))
      demo_world_one_trashed = (Some no_such_file, demo_world_one_trashed)"
    by code_simp
  have e1: "map_of demo_world_one_trashed zeta_md = Some (File ''z'')" by code_simp
  have e2: "map_of demo_world_one_trashed notes_txt = None" by code_simp
  note t = delete_partial_failure[of 0 demo_batch "[notes_txt]" ghost "[zeta_md]" ?G
      demo_world_trash "[(trashed_notes, notes_txt)]" demo_world_one_trashed no_such_file
      demo_world_one_trashed, THEN conjunct1, THEN mp, OF conjI[OF h1 conjI[OF h2 conjI[OF h3 h4]]]]
  show ?thesis
    using h1 h2 h3 h4 t e1 e2 by (intro conjI) simp_all
qed


subsection \<open>Sorting and the listing\<close>












lemma directory_size: "is_dir os w p = Inr True \<Longrightarrow> entry_size os w p = 0"
  by (auto simp: entry_size_def is_dir_def is_file_def split: sum.splits if_splits)








text \<open>
  Claim C10, evaluated where it fails. In a directory that can be listed but not searched,
  \<open>stat\<close> of every entry raises \<open>PermissionError\<close>. \<open>_size\<close> and \<open>_mtime\<close> catch it and give
  0, as the claim says; but \<open>p.is_dir()\<close> in the same key tuple is not guarded and raises
  it again, so \<open>_sort_entries\<close> raises under each of the four modes instead of returning a
  permutation, and \<open>refresh_table\<close> is left by the exception with the table cleared.
\<close>

theorem sort_entries_raises_on_refused_stat:
  "iterdir locked_os demo_world [''/'', ''home''] = Inr demo_raw
 \<and> path_stat locked_os demo_world notes_txt = Inl permission_denied
 \<and> entry_size locked_os demo_world notes_txt = 0
 \<and> entry_mtime locked_os demo_world notes_txt = 0
 \<and> is_dir locked_os demo_world notes_txt = Inl permission_denied
 \<and> sort_entries locked_os demo_world SortName demo_raw = Inl permission_denied
 \<and> sort_entries locked_os demo_world SortSize demo_raw = Inl permission_denied
 \<and> sort_entries locked_os demo_world SortModified demo_raw = Inl permission_denied
 \<and> sort_entries locked_os demo_world SortType demo_raw = Inl permission_denied
 \<and> fst (refresh_table locked_os demo_app) = Some permission_denied
 \<and> row_count (snd (refresh_table locked_os demo_app)) = 0"
proof -
  have a: "iterdir locked_os demo_world [''/'', ''home''] = Inr demo_raw" by code_simp
  have b: "path_stat locked_os demo_world notes_txt = Inl permission_denied" by code_simp
  have c: "entry_size locked_os demo_world notes_txt = 0" by code_simp
  have d: "entry_mtime locked_os demo_world notes_txt = 0" by code_simp
  have e: "is_dir locked_os demo_world notes_txt = Inl permission_denied" by code_simp
  have f: "sort_entries locked_os demo_world SortName demo_raw = Inl permission_denied"
    by code_simp
  have g: "sort_entries locked_os demo_world SortSize demo_raw = Inl permission_denied"
    by code_simp
  have h: "sort_entries locked_os demo_world SortModified demo_raw = Inl permission_denied"
    by code_simp
  have i: "sort_entries locked_os demo_world SortType demo_raw = Inl permission_denied"
    by code_simp
  have j: "fst (refresh_table locked_os demo_app) = Some permission_denied" by code_simp
  have k: "row_count (snd (refresh_table locked_os demo_app)) = 0" by code_simp
  show ?thesis using a b c d e f g h i j k by (intro conjI)
qed






subsection \<open>Archiving and extracting\<close>

lemma endswith_append_self: "endswith (r @ s) s"
  by (simp add: endswith_def)

lemma zip_name_props:
  "endswith (zip_name r) ''.zip''"
  "endswith r ''.zip'' \<Longrightarrow> zip_name r = r"
  "\<not> endswith r ''.zip'' \<Longrightarrow> zip_name r = r @ ''.zip''"
  using endswith_append_self[of r "''.zip''"] by (auto simp: zip_name_def)

lemma archive_handle_world:
  assumes "r \<noteq> []"
  shows "world (archive_handle os targets (Some r) st)
           = snd (write_zip os (joinpath (current_dir st) (zip_name r)) targets (world st))"
proof -
  let ?out = "joinpath (current_dir st) (zip_name r)"
  obtain x w' where wz: "write_zip os ?out targets (world st) = (x, w')"
    by (cases "write_zip os ?out targets (world st)")
  obtain y st' where rt: "refresh_table os (st\<lparr>world := w', selected := []\<rparr>) = (y, st')"
    by (cases "refresh_table os (st\<lparr>world := w', selected := []\<rparr>)")
  note k = refresh_table_keeps[OF rt]
  show ?thesis
    using assms wz rt k by (cases x; cases y) (simp_all add: archive_handle_def Let_def)
qed

lemma extract_finish_world: "world (extract_finish os path dest st r) = snd r"
proof -
  obtain x w' where r: "r = (x, w')" by (cases r)
  obtain y st' where rt: "refresh_table os (st\<lparr>world := w'\<rparr>) = (y, st')"
    by (cases "refresh_table os (st\<lparr>world := w'\<rparr>)")
  note k = refresh_table_keeps[OF rt]
  show ?thesis using r rt k by (cases x; cases y) (simp_all add: extract_finish_def)
qed

lemma extract_archive_world:
  assumes "\<exists>suf \<in> set extractable_suffixes. endswith (lower (path_name e)) suf"
  shows "world (extract_archive os e st)
           = snd (spec_extract os e (joinpath (current_dir st) (path_stem e)) (world st))"
proof -
  let ?n = "lower (path_name e)"
  have t: "(\<exists>suf \<in> set tar_suffixes. endswith ?n suf)
             \<longleftrightarrow> (endswith ?n ''.tar.gz'' \<or> endswith ?n ''.tgz'' \<or> endswith ?n ''.tar.bz2''
                  \<or> endswith ?n ''.tar.xz'' \<or> endswith ?n ''.tar'')"
    by (simp add: tar_suffixes_def)
  from assms have c: "endswith ?n ''.zip'' \<or> (\<exists>suf \<in> set tar_suffixes. endswith ?n suf)
                        \<or> endswith ?n ''.gz''"
    by (auto simp: extractable_suffixes_def)
  show ?thesis
  proof (cases "endswith ?n ''.zip''")
    case True
    then show ?thesis
      by (simp add: extract_archive_def spec_extract_def Let_def extract_finish_world)
  next
    case nz: False
    show ?thesis
    proof (cases "\<exists>suf \<in> set tar_suffixes. endswith ?n suf")
      case True
      then show ?thesis using nz t
        by (simp add: extract_archive_def spec_extract_def Let_def extract_finish_world)
    next
      case False
      with nz c have "endswith ?n ''.gz''" by blast
      then show ?thesis using nz False t
        by (simp add: extract_archive_def spec_extract_def Let_def extract_finish_world)
    qed
  qed
qed

lemma archive_handle_success:
  assumes "r \<noteq> []"
      and "write_zip os (joinpath (current_dir st) (zip_name r)) targets (world st) = (None, w')"
      and "fst (refresh_table os (st\<lparr>world := w', selected := []\<rparr>)) = None"
  shows "undo (archive_handle os targets (Some r) st)
           = undo st @ [(''zip '' @ zip_name r, UndoZip (joinpath (current_dir st) (zip_name r)))]"
    and "selected (archive_handle os targets (Some r) st) = []"
    and "status (archive_handle os targets (Some r) st) = CreatedArchive (zip_name r)"
proof -
  obtain y st' where rt: "refresh_table os (st\<lparr>world := w', selected := []\<rparr>) = (y, st')"
    by (cases "refresh_table os (st\<lparr>world := w', selected := []\<rparr>)")
  note k = refresh_table_keeps[OF rt]
  from assms(3) rt have y: "y = None" by simp
  show "undo (archive_handle os targets (Some r) st)
           = undo st @ [(''zip '' @ zip_name r, UndoZip (joinpath (current_dir st) (zip_name r)))]"
    using assms(1,2) rt k y by (simp add: archive_handle_def Let_def push_def)
  show "selected (archive_handle os targets (Some r) st) = []"
    using assms(1,2) rt k y by (simp add: archive_handle_def Let_def)
  show "status (archive_handle os targets (Some r) st) = CreatedArchive (zip_name r)"
    using assms(1,2) rt k y by (simp add: archive_handle_def Let_def)
qed

lemma action_archive_zips:
  assumes "\<not> (\<exists>a. selected_entry cursor_row st = Some a \<and> selected st = [] \<and> is_archive a)"
      and "effective_targets cursor_row st \<noteq> []"
  shows "action_archive os cursor_row result st
           = archive_handle os (effective_targets cursor_row st) result st"
proof -
  from assms(1) have n: "\<not> (selected_entry cursor_row st \<noteq> None
                  \<and> is_archive (the (selected_entry cursor_row st)) \<and> selected st = [])"
    by auto
  show ?thesis
    using n assms(2) unfolding action_archive_def Let_def by (simp only: if_False)
qed

text \<open>The calls that \<open>write_zip\<close> makes, read off the recording world.\<close>

lemma recording_is_dir: "is_dir (recording os0 dirs tree) w t = Inr (t \<in> set dirs)"
  by (simp add: is_dir_def recording_def)

lemma recording_add_files:
  "\<forall>f \<in> set fs. prefix base f \<Longrightarrow>
   zip_add_files (recording os0 dirs tree) zf base fs w
     = (None, w @ map (\<lambda>f. ZipWrite zf f (drop (length base) f)) fs)"
  by (induction fs arbitrary: w) (simp_all add: relative_to_def recording_def)

lemma recording_targets:
  "\<forall>t \<in> set ts. \<forall>f \<in> set (tree t). prefix (parent t) f \<Longrightarrow>
   zip_targets (recording os0 dirs tree) zf ts w
     = (None, w @ spec_zip_members zf dirs tree ts)"
proof (induction ts arbitrary: w)
  case Nil
  then show ?case by (simp add: spec_zip_members_def)
next
  case (Cons t ts)
  have rest: "\<forall>t \<in> set ts. \<forall>f \<in> set (tree t). prefix (parent t) f" using Cons.prems by simp
  have here: "\<forall>f \<in> set (tree t). prefix (parent t) f" using Cons.prems by simp
  have rg: "rglob_all (recording os0 dirs tree) w t = Inr (tree t)"
    by (simp add: recording_def)
  have ad: "zip_add (recording os0 dirs tree) zf t [path_name t] w
              = (None, w @ [ZipWrite zf t [path_name t]])"
    by (simp add: recording_def)
  show ?case
  proof (cases "t \<in> set dirs")
    case True
    then show ?thesis
      using Cons.IH[OF rest] recording_add_files[OF here, of os0 dirs tree zf w] rg
      by (simp add: recording_is_dir spec_zip_members_def)
  next
    case False
    then show ?thesis
      using Cons.IH[OF rest] ad
      by (simp add: recording_is_dir spec_zip_members_def)
  qed
qed

lemma recording_write_zip:
  assumes "\<forall>t \<in> set ts. \<forall>f \<in> set (tree t). prefix (parent t) f"
  shows "write_zip (recording os0 dirs tree) out ts w
           = (None, w @ [ZipOpen out] @ spec_zip_members out dirs tree ts @ [ZipClose out])"
proof -
  have o: "zip_open (recording os0 dirs tree) out w = (None, w @ [ZipOpen out])"
    by (simp add: recording_def)
  have c: "zip_close (recording os0 dirs tree) out v = (None, v @ [ZipClose out])" for v
    by (simp add: recording_def)
  show ?thesis
    using o c recording_targets[OF assms, of os0 dirs out "w @ [ZipOpen out]"]
    by (simp add: write_zip_def)
qed

text \<open>
  Claim C8 as stated does not hold: with the archive itself as the only selected entry,
  exactly one entry is targeted, no other entry is selected and the name matches, yet
  \<open>action_archive\<close> does not extract. The test of the source is \<open>not self._selected\<close>, so
  the archive is written into a new zip file and nothing is unpacked.
\<close>

theorem archive_selected_counterexample:
  "selected_entry 2 demo_archive_selected = Some data_tar_gz
 \<and> selected demo_archive_selected = [data_tar_gz]
 \<and> effective_targets 2 demo_archive_selected = [data_tar_gz]
 \<and> is_archive data_tar_gz
 \<and> status (action_archive (demo_os demo_git_missing) 2 (Some ''backup'') demo_archive_selected)
      = CreatedArchive ''backup.zip''
 \<and> undo (action_archive (demo_os demo_git_missing) 2 (Some ''backup'') demo_archive_selected)
      = [(''zip backup.zip'', UndoZip [''/'', ''home'', ''backup.zip''])]
 \<and> status (extract_archive (demo_os demo_git_missing) data_tar_gz demo_archive_selected)
      = Extracted ''data.tar.gz'' ''data.tar''
 \<and> path_stat (demo_os demo_git_missing)
      (world (action_archive (demo_os demo_git_missing) 2 (Some ''backup'') demo_archive_selected))
      [''/'', ''home'', ''data.tar''] = Inl no_such_file
 \<and> map_of (world (action_archive (demo_os demo_git_missing) 2 (Some ''backup'')
                     demo_archive_selected))
      [''/'', ''home'', ''backup.zip''] = Some (File [])"
  by code_simp

text \<open>
  Claim C8, as amended. When the cursor is on an entry, nothing at all is selected, and the
  name of the entry ends (case-insensitively) with \<open>.zip\<close>, \<open>.tar\<close>, \<open>.tar.gz\<close>, \<open>.tgz\<close>,
  \<open>.tar.bz2\<close>, \<open>.tar.xz\<close> or \<open>.gz\<close>, the archive action extracts that entry: the world is the
  one left by the zip, tar or gzip extraction of the entry into the current directory
  joined with its stem. When something is selected (be it only that archive) or the cursor
  entry is no archive, there is at least one target and a name was typed, the action
  writes the targets into a zip file in the current directory under the typed name,
  completed by \<open>.zip\<close> unless it already ends with it: the archive is opened, a file is
  written under its bare name and every file below a directory under its path relative to
  the parent of the directory, and the archive is closed; on success the selection is
  cleared and the undo entry removes the zip file. With no target the action only reports
  that; when the dialog is dismissed or left empty nothing changes.
\<close>

theorem archive_or_extract_dispatch:
  "(selected_entry cursor_row st = Some e \<and> selected st = []
      \<and> (\<exists>suf \<in> set extractable_suffixes. endswith (lower (path_name e)) suf)
      \<longrightarrow> effective_targets cursor_row st = [e]
        \<and> action_archive os cursor_row result st = extract_archive os e st
        \<and> world (action_archive os cursor_row result st)
            = snd (spec_extract os e (joinpath (current_dir st) (path_stem e)) (world st)))
 \<and> (\<not> (\<exists>a. selected_entry cursor_row st = Some a \<and> selected st = [] \<and> is_archive a)
      \<and> effective_targets cursor_row st \<noteq> [] \<and> r \<noteq> []
      \<longrightarrow> world (action_archive os cursor_row (Some r) st)
            = snd (write_zip os (joinpath (current_dir st) (zip_name r))
                     (effective_targets cursor_row st) (world st))
        \<and> (write_zip os (joinpath (current_dir st) (zip_name r))
              (effective_targets cursor_row st) (world st) = (None, w')
            \<and> fst (refresh_table os (st\<lparr>world := w', selected := []\<rparr>)) = None
            \<longrightarrow> undo (action_archive os cursor_row (Some r) st)
                  = undo st @ [(''zip '' @ zip_name r,
                                UndoZip (joinpath (current_dir st) (zip_name r)))]
              \<and> selected (action_archive os cursor_row (Some r) st) = []
              \<and> status (action_archive os cursor_row (Some r) st) = CreatedArchive (zip_name r)))
 \<and> (\<not> (\<exists>a. selected_entry cursor_row rst = Some a \<and> selected rst = [] \<and> is_archive a)
      \<and> effective_targets cursor_row rst \<noteq> [] \<and> r \<noteq> []
      \<and> (\<forall>t \<in> set (effective_targets cursor_row rst). \<forall>f \<in> set (tree t). prefix (parent t) f)
      \<longrightarrow> world (action_archive (recording os0 dirs tree) cursor_row (Some r) rst)
            = world rst @ [ZipOpen (joinpath (current_dir rst) (zip_name r))]
                @ spec_zip_members (joinpath (current_dir rst) (zip_name r)) dirs tree
                    (effective_targets cursor_row rst)
                @ [ZipClose (joinpath (current_dir rst) (zip_name r))])
 \<and> endswith (zip_name r) ''.zip''
 \<and> (endswith r ''.zip'' \<longrightarrow> zip_name r = r)
 \<and> (\<not> endswith r ''.zip'' \<longrightarrow> zip_name r = r @ ''.zip'')
 \<and> (effective_targets cursor_row st = []
      \<longrightarrow> action_archive os cursor_row result st = st\<lparr>status := NoItemsToZip\<rparr>)
 \<and> (\<not> (\<exists>a. selected_entry cursor_row st = Some a \<and> selected st = [] \<and> is_archive a)
      \<and> effective_targets cursor_row st \<noteq> [] \<and> (result = None \<or> result = Some [])
      \<longrightarrow> action_archive os cursor_row result st = st)"
proof (intro conjI impI)
  assume h: "selected_entry cursor_row st = Some e \<and> selected st = []
      \<and> (\<exists>suf \<in> set extractable_suffixes. endswith (lower (path_name e)) suf)"
  then have ia: "is_archive e"
    by (auto simp: is_archive_def Let_def extractable_suffixes_def tar_suffixes_def)
  from h show "effective_targets cursor_row st = [e]"
    by (simp add: effective_targets_def)
  from h ia show a: "action_archive os cursor_row result st = extract_archive os e st"
    by (simp add: action_archive_def Let_def)
  from h show "world (action_archive os cursor_row result st)
            = snd (spec_extract os e (joinpath (current_dir st) (path_stem e)) (world st))"
    unfolding a by (intro extract_archive_world) simp
next
  assume h: "\<not> (\<exists>a. selected_entry cursor_row st = Some a \<and> selected st = [] \<and> is_archive a)
      \<and> effective_targets cursor_row st \<noteq> [] \<and> r \<noteq> []"
  then have a: "action_archive os cursor_row (Some r) st
            = archive_handle os (effective_targets cursor_row st) (Some r) st"
    by (intro action_archive_zips) simp_all
  from h have r: "r \<noteq> []" by simp
  show "world (action_archive os cursor_row (Some r) st)
            = snd (write_zip os (joinpath (current_dir st) (zip_name r))
                     (effective_targets cursor_row st) (world st))"
    unfolding a by (rule archive_handle_world[OF r])
  assume s: "write_zip os (joinpath (current_dir st) (zip_name r))
              (effective_targets cursor_row st) (world st) = (None, w')
            \<and> fst (refresh_table os (st\<lparr>world := w', selected := []\<rparr>)) = None"
  then have s1: "write_zip os (joinpath (current_dir st) (zip_name r))
              (effective_targets cursor_row st) (world st) = (None, w')"
    and s2: "fst (refresh_table os (st\<lparr>world := w', selected := []\<rparr>)) = None" by simp_all
  show "undo (action_archive os cursor_row (Some r) st)
                  = undo st @ [(''zip '' @ zip_name r,
                                UndoZip (joinpath (current_dir st) (zip_name r)))]"
    unfolding a by (rule archive_handle_success(1)[OF r s1 s2])
  show "selected (action_archive os cursor_row (Some r) st) = []"
    unfolding a by (rule archive_handle_success(2)[OF r s1 s2])
  show "status (action_archive os cursor_row (Some r) st) = CreatedArchive (zip_name r)"
    unfolding a by (rule archive_handle_success(3)[OF r s1 s2])
next
  assume h: "\<not> (\<exists>a. selected_entry cursor_row rst = Some a \<and> selected rst = [] \<and> is_archive a)
      \<and> effective_targets cursor_row rst \<noteq> [] \<and> r \<noteq> []
      \<and> (\<forall>t \<in> set (effective_targets cursor_row rst). \<forall>f \<in> set (tree t). prefix (parent t) f)"
  then have a: "action_archive (recording os0 dirs tree) cursor_row (Some r) rst
            = archive_handle (recording os0 dirs tree) (effective_targets cursor_row rst)
                (Some r) rst"
    by (intro action_archive_zips) simp_all
  from h have r: "r \<noteq> []"
    and p: "\<forall>t \<in> set (effective_targets cursor_row rst). \<forall>f \<in> set (tree t). prefix (parent t) f"
    by simp_all
  show "world (action_archive (recording os0 dirs tree) cursor_row (Some r) rst)
            = world rst @ [ZipOpen (joinpath (current_dir rst) (zip_name r))]
                @ spec_zip_members (joinpath (current_dir rst) (zip_name r)) dirs tree
                    (effective_targets cursor_row rst)
                @ [ZipClose (joinpath (current_dir rst) (zip_name r))]"
    unfolding a archive_handle_world[OF r] recording_write_zip[OF p] by simp
next
  show "endswith (zip_name r) ''.zip''" by (rule zip_name_props)
next
  assume "endswith r ''.zip''" then show "zip_name r = r" by (rule zip_name_props)
next
  assume "\<not> endswith r ''.zip''" then show "zip_name r = r @ ''.zip''" by (rule zip_name_props)
next
  assume "effective_targets cursor_row st = []"
  then show "action_archive os cursor_row result st = st\<lparr>status := NoItemsToZip\<rparr>"
    by (auto simp: action_archive_def effective_targets_def Let_def split: if_splits option.splits)
next
  assume h: "\<not> (\<exists>a. selected_entry cursor_row st = Some a \<and> selected st = [] \<and> is_archive a)
      \<and> effective_targets cursor_row st \<noteq> [] \<and> (result = None \<or> result = Some [])"
  then have a: "action_archive os cursor_row result st
            = archive_handle os (effective_targets cursor_row st) result st"
    by (intro action_archive_zips) simp_all
  from h show "action_archive os cursor_row result st = st"
    unfolding a by (auto simp: archive_handle_def)
qed

text \<open>
  The cursor on a tar archive with nothing selected; the cursor on a directory with a name
  typed; two targets, a directory and a file, in the recording world; no target; and the
  dialog dismissed.
\<close>

theorem archive_or_extract_dispatch_witness:
  "selected_entry 2 demo_listed = Some data_tar_gz
 \<and> selected demo_listed = []
 \<and> (\<exists>suf \<in> set extractable_suffixes. endswith (lower (path_name data_tar_gz)) suf)
 \<and> effective_targets 2 demo_listed = [data_tar_gz]
 \<and> action_archive (demo_os demo_git_missing) 2 None demo_listed
      = extract_archive (demo_os demo_git_missing) data_tar_gz demo_listed
 \<and> world (action_archive (demo_os demo_git_missing) 2 None demo_listed)
      = snd (tar_extractall (demo_os demo_git_missing) data_tar_gz [''/'', ''home'', ''data.tar'']
               (world demo_listed))
 \<and> selected_entry 0 demo_listed = Some other_dir
 \<and> \<not> is_archive other_dir
 \<and> effective_targets 0 demo_listed = [other_dir]
 \<and> write_zip (demo_os demo_git_missing) [''/'', ''home'', ''backup.zip''] [other_dir]
      (world demo_listed) = (None, demo_world @ [([''/'', ''home'', ''backup.zip''], File [])])
 \<and> world (action_archive (demo_os demo_git_missing) 0 (Some ''backup'') demo_listed)
      = demo_world @ [([''/'', ''home'', ''backup.zip''], File [])]
 \<and> undo (action_archive (demo_os demo_git_missing) 0 (Some ''backup'') demo_listed)
      = [(''zip backup.zip'', UndoZip [''/'', ''home'', ''backup.zip''])]
 \<and> selected (action_archive (demo_os demo_git_missing) 0 (Some ''backup'') demo_listed) = []
 \<and> status (action_archive (demo_os demo_git_missing) 0 (Some ''backup'') demo_listed)
      = CreatedArchive ''backup.zip''
 \<and> effective_targets 0 demo_recorded = [work_dir, notes_txt]
 \<and> world (action_archive (recording quiet_os [work_dir] demo_tree) 0 (Some ''backup'')
            demo_recorded)
      = [ZipOpen [''/'', ''home'', ''backup.zip''],
         ZipWrite [''/'', ''home'', ''backup.zip''] [''/'', ''home'', ''work'', ''main.py'']
           [''work'', ''main.py''],
         ZipWrite [''/'', ''home'', ''backup.zip''] notes_txt [''notes.txt''],
         ZipClose [''/'', ''home'', ''backup.zip'']]
 \<and> \<not> endswith ''backup'' ''.zip'' \<and> zip_name ''backup'' = ''backup.zip''
 \<and> endswith ''old.zip'' ''.zip'' \<and> zip_name ''old.zip'' = ''old.zip''
 \<and> effective_targets 0 demo_app = []
 \<and> action_archive (demo_os demo_git_missing) 0 (Some ''backup'') demo_app
      = demo_app\<lparr>status := NoItemsToZip\<rparr>
 \<and> action_archive (demo_os demo_git_missing) 0 None demo_listed = demo_listed"
proof -
  let ?G = "demo_os demo_git_missing"
  let ?R = "recording quiet_os [work_dir] demo_tree"
  let ?out = "[''/'', ''home'', ''backup.zip'']"
  let ?w' = "demo_world @ [(?out, File [])]"
  note t = archive_or_extract_dispatch
  have a1: "selected_entry 2 demo_listed = Some data_tar_gz" by code_simp
  have a2: "selected demo_listed = []" by (simp add: demo_listed_def demo_app_def)
  have a3: "\<exists>suf \<in> set extractable_suffixes. endswith (lower (path_name data_tar_gz)) suf"
    by code_simp
  have a4: "snd (spec_extract ?G data_tar_gz
                   (joinpath (current_dir demo_listed) (path_stem data_tar_gz)) (world demo_listed))
             = snd (tar_extractall ?G data_tar_gz [''/'', ''home'', ''data.tar'']
                      (world demo_listed))"
    by code_simp
  note ta = t[where cursor_row = 2 and st = demo_listed and e = data_tar_gz and os = ?G
                and result = None, THEN conjunct1, THEN mp, OF conjI[OF a1 conjI[OF a2 a3]]]
  have b1: "selected_entry 0 demo_listed = Some other_dir" by code_simp
  have b2: "\<not> is_archive other_dir" by code_simp
  have b3: "effective_targets 0 demo_listed = [other_dir]" by code_simp
  have b4: "''backup'' \<noteq> []" by simp
  have b5: "\<not> (\<exists>a. selected_entry 0 demo_listed = Some a \<and> selected demo_listed = []
                \<and> is_archive a)"
    using b1 b2 by simp
  have b6: "effective_targets 0 demo_listed \<noteq> []" using b3 by simp
  have z1: "\<not> endswith ''backup'' ''.zip''" by code_simp
  have z2: "endswith ''old.zip'' ''.zip''" by code_simp
  note tz1 = t[where r = "''backup''", THEN conjunct2, THEN conjunct2, THEN conjunct2,
               THEN conjunct2, THEN conjunct2, THEN conjunct1, THEN mp, OF z1]
  note tz2 = t[where r = "''old.zip''", THEN conjunct2, THEN conjunct2, THEN conjunct2,
               THEN conjunct2, THEN conjunct1, THEN mp, OF z2]
  have zn: "zip_name ''backup'' = ''backup.zip''" using tz1 by simp
  have out: "joinpath (current_dir demo_listed) ''backup.zip'' = ?out" by code_simp
  have wz: "write_zip ?G ?out [other_dir] (world demo_listed) = (None, ?w')" by code_simp
  have rf: "fst (refresh_table ?G (demo_listed\<lparr>world := ?w', selected := []\<rparr>)) = None"
    by code_simp
  have u0: "undo demo_listed = []" by (simp add: demo_listed_def demo_app_def)
  note tb = t[where cursor_row = 0 and st = demo_listed and r = "''backup''" and os = ?G
                and w' = ?w', THEN conjunct2, THEN conjunct1, THEN mp,
              OF conjI[OF b5 conjI[OF b6 b4]], unfolded b3 zn out]
  note tb1 = tb[THEN conjunct1, unfolded wz]
  note tb2 = tb[THEN conjunct2, THEN mp, OF conjI[OF wz rf], unfolded u0]
  have c1: "effective_targets 0 demo_recorded = [work_dir, notes_txt]" by code_simp
  have c2: "\<not> (\<exists>a. selected_entry 0 demo_recorded = Some a \<and> selected demo_recorded = []
                \<and> is_archive a)"
    by (simp add: demo_recorded_def)
  have c3: "effective_targets 0 demo_recorded \<noteq> []" using c1 by simp
  have c4: "\<forall>t \<in> set (effective_targets 0 demo_recorded). \<forall>f \<in> set (demo_tree t).
              prefix (parent t) f"
    unfolding c1 by (simp add: demo_tree_def work_dir_def notes_txt_def parent_def is_anchor_def)
  have c5: "joinpath (current_dir demo_recorded) ''backup.zip'' = ?out" by code_simp
  have c6: "world demo_recorded @ [ZipOpen ?out]
              @ spec_zip_members ?out [work_dir] demo_tree [work_dir, notes_txt]
              @ [ZipClose ?out]
            = [ZipOpen ?out,
               ZipWrite ?out [''/'', ''home'', ''work'', ''main.py''] [''work'', ''main.py''],
               ZipWrite ?out notes_txt [''notes.txt''],
               ZipClose ?out]"
    by code_simp
  note tc = t[where cursor_row = 0 and rst = demo_recorded and r = "''backup''"
                and os0 = quiet_os and dirs = "[work_dir]" and tree = demo_tree,
              THEN conjunct2, THEN conjunct2, THEN conjunct1, THEN mp,
              OF conjI[OF c2 conjI[OF c3 conjI[OF b4 c4]]], unfolded c1 zn c5 c6]
  have d1: "effective_targets 0 demo_app = []" by code_simp
  note td = t[where cursor_row = 0 and st = demo_app and os = ?G and result = "Some ''backup''",
              THEN conjunct2, THEN conjunct2, THEN conjunct2, THEN conjunct2, THEN conjunct2,
              THEN conjunct2, THEN conjunct1, THEN mp, OF d1]
  have e1: "(None :: string option) = None \<or> (None :: string option) = Some []" by simp
  note te = t[where cursor_row = 0 and st = demo_listed and os = ?G and result = None,
              THEN conjunct2, THEN conjunct2, THEN conjunct2, THEN conjunct2, THEN conjunct2,
              THEN conjunct2, THEN conjunct2, THEN mp, OF conjI[OF b5 conjI[OF b6 e1]]]
  show ?thesis
    using a1 a2 a3 ta[THEN conjunct1] ta[THEN conjunct2, THEN conjunct1]
      ta[THEN conjunct2, THEN conjunct2, unfolded a4] b1 b2 b3 wz tb1
      tb2[THEN conjunct1] tb2[THEN conjunct2, THEN conjunct1]
      tb2[THEN conjunct2, THEN conjunct2] c1 tc z1 zn z2 tz2 d1 td te
    by (intro conjI) simp_all
qed

text \<open>\<open>Path.suffix\<close> is empty or one dot followed by characters other than the dot.\<close>

lemma rfind_dot_last:
  assumes "rfind_dot n = Some i"
  shows "i < length n" "n ! i = CHR ''.''" "\<forall>j. i < j \<and> j < length n \<longrightarrow> n ! j \<noteq> CHR ''.''"
proof -
  let ?P = "\<lambda>i. n ! i = CHR ''.''"
  from assms obtain rest where f: "filter ?P (rev [0 ..< length n]) = i # rest"
    by (auto simp: rfind_dot_def split: list.splits)
  then obtain us vs where d: "rev [0 ..< length n] = us @ i # vs"
    and nu: "\<forall>u \<in> set us. \<not> ?P u" and pi: "?P i"
    by (auto simp: filter_eq_Cons_iff)
  have mem: "i \<in> set (rev [0 ..< length n])" unfolding d by simp
  then show "i < length n" by simp
  show "n ! i = CHR ''.''" by (rule pi)
  have up: "[0 ..< length n] = rev vs @ i # rev us"
    using d by (metis rev_append rev.simps(2) rev_rev_ident append_Cons append_Nil append_assoc)
  have srt: "sorted (rev vs @ i # rev us)" "distinct (rev vs @ i # rev us)"
    using up by (metis sorted_upt, metis distinct_upt)
  have below: "\<forall>x \<in> set vs. x < i"
    using srt by (auto simp: sorted_append le_less)
  show "\<forall>j. i < j \<and> j < length n \<longrightarrow> n ! j \<noteq> CHR ''.''"
  proof (intro allI impI)
    fix j assume j: "i < j \<and> j < length n"
    then have "j \<in> set [0 ..< length n]" by simp
    then have "j \<in> set vs \<or> j = i \<or> j \<in> set us" unfolding up by auto
    with j below have "j \<in> set us" by auto
    with nu show "n ! j \<noteq> CHR ''.''" by blast
  qed
qed

lemma suffix_single_dot:
  "(path_suffix p = [] \<or> hd (path_suffix p) = CHR ''.'')
   \<and> CHR ''.'' \<notin> set (drop 1 (path_suffix p))"
proof (cases "rfind_dot (path_name p)")
  case None
  then show ?thesis by (auto simp: path_suffix_def Let_def)
next
  case (Some i)
  note r = rfind_dot_last[OF Some]
  show ?thesis
  proof (cases "0 < i \<and> i < length (path_name p) - 1")
    case False
    then show ?thesis using Some by (auto simp: path_suffix_def Let_def)
  next
    case True
    then have s: "path_suffix p = drop i (path_name p)"
      using Some by (auto simp: path_suffix_def Let_def)
    have h: "hd (drop i (path_name p)) = CHR ''.''"
      using r(1,2) by (simp add: hd_drop_conv_nth)
    have "CHR ''.'' \<notin> set (drop (Suc i) (path_name p))"
    proof
      assume "CHR ''.'' \<in> set (drop (Suc i) (path_name p))"
      then obtain k where k: "k < length (drop (Suc i) (path_name p))"
        "drop (Suc i) (path_name p) ! k = CHR ''.''"
        by (auto simp: in_set_conv_nth)
      then have "path_name p ! (Suc i + k) = CHR ''.''" "Suc i + k < length (path_name p)"
        by simp_all
      with r(3) show False by (metis less_add_Suc1 add_Suc)
    qed
    then show ?thesis using s h by simp
  qed
qed

lemma stem_suffix_name: "path_stem p @ path_suffix p = path_name p"
  by (simp add: path_stem_def path_suffix_def Let_def split: option.splits)

lemma rfind_dot_tar_gz: "rfind_dot ''data.tar.gz'' = Some 8"
  by code_simp

lemma rfind_dot_note_gz: "rfind_dot ''note.gz'' = Some 4"
  by code_simp

lemma parts_data_tar: "path_parts ''data.tar'' = [''data.tar'']"
  by code_simp

lemma parts_note: "path_parts ''note'' = [''note'']"
  by code_simp

lemma stem_data_tar_gz: "path_name p = ''data.tar.gz'' \<Longrightarrow> path_stem p = ''data.tar''"
  by (simp add: path_stem_def rfind_dot_tar_gz)

lemma stem_note_gz: "path_name p = ''note.gz'' \<Longrightarrow> path_stem p = ''note''"
  by (simp add: path_stem_def rfind_dot_note_gz)

lemma lower_data_tar_gz: "lower ''data.tar.gz'' = ''data.tar.gz''" by code_simp
lemma lower_note_gz: "lower ''note.gz'' = ''note.gz''" by code_simp

lemma ends_data: "\<not> endswith ''data.tar.gz'' ''.zip''" "endswith ''data.tar.gz'' ''.tar.gz''"
  by code_simp+

lemma ends_note: "\<not> endswith ''note.gz'' ''.zip''" "\<not> endswith ''note.gz'' ''.tar.gz''"
  "\<not> endswith ''note.gz'' ''.tgz''" "\<not> endswith ''note.gz'' ''.tar.bz2''"
  "\<not> endswith ''note.gz'' ''.tar.xz''" "\<not> endswith ''note.gz'' ''.tar''"
  "endswith ''note.gz'' ''.gz''"
  by code_simp+

lemma extract_finish_success:
  assumes "fst (refresh_table os (st\<lparr>world := w'\<rparr>)) = None"
  shows "world (extract_finish os path dest st (None, w')) = w'"
    and "undo (extract_finish os path dest st (None, w'))
           = undo st @ [(''extract '' @ path_name path, UndoExtract dest)]"
proof -
  obtain y st' where rt: "refresh_table os (st\<lparr>world := w'\<rparr>) = (y, st')"
    by (cases "refresh_table os (st\<lparr>world := w'\<rparr>)")
  note k = refresh_table_keeps[OF rt]
  from assms rt have y: "y = None" by simp
  show "world (extract_finish os path dest st (None, w')) = w'"
    using rt k y by (simp add: extract_finish_def)
  show "undo (extract_finish os path dest st (None, w'))
           = undo st @ [(''extract '' @ path_name path, UndoExtract dest)]"
    using rt k y by (simp add: extract_finish_def push_def)
qed

text \<open>
  Claim C1 as stated does not hold: for \<open>data.tar.gz\<close> the destination is not the base name
  without extension, \<open>data\<close>. \<open>Path.stem\<close> removes the last suffix only, so the archive
  is unpacked into \<open>data.tar\<close>, the status bar and the undo entry name \<open>data.tar\<close>, and
  nothing named \<open>data\<close> exists afterwards.
\<close>

theorem extract_tar_gz_counterexample:
  "spec_base_name data_tar_gz = ''data''
 \<and> joinpath (parent data_tar_gz) (path_stem data_tar_gz)
      \<noteq> joinpath (parent data_tar_gz) (spec_base_name data_tar_gz)
 \<and> status (extract_archive (demo_os demo_git_missing) data_tar_gz demo_app)
      = Extracted ''data.tar.gz'' ''data.tar''
 \<and> undo (extract_archive (demo_os demo_git_missing) data_tar_gz demo_app)
      = [(''extract data.tar.gz'', UndoExtract [''/'', ''home'', ''data.tar''])]
 \<and> is_dir (demo_os demo_git_missing)
      (world (extract_archive (demo_os demo_git_missing) data_tar_gz demo_app))
      [''/'', ''home'', ''data.tar''] = Inr True
 \<and> path_stat (demo_os demo_git_missing)
      (world (extract_archive (demo_os demo_git_missing) data_tar_gz demo_app))
      [''/'', ''home'', ''data''] = Inl no_such_file"
  by code_simp

text \<open>
  Claim C1, as amended. For an archive picked in the current directory, \<open>_extract_archive\<close>
  puts its output at the parent directory of the archive joined with \<open>Path.stem\<close>, which is
  the name without its last suffix only (name = stem + suffix, and the suffix holds no dot
  but its first character): the extraction is one of the three library calls
  with this destination, or the report of an unsupported format. For \<open>data.tar.gz\<close> the tar
  archive is unpacked into the directory \<open>data.tar\<close>; for \<open>note.gz\<close> the decompressed
  stream is written to the file \<open>note\<close>. When the call and the refresh succeed, the world is
  the one the call left and the undo entry pushed removes exactly this destination.
\<close>

theorem extract_destination:
  assumes "parent path = current_dir st"
  defines "dest \<equiv> joinpath (parent path) (path_stem path)"
  shows "extract_archive os path st \<in>
           {extract_finish os path dest st (zip_extractall os path dest (world st)),
            extract_finish os path dest st (tar_extractall os path dest (world st)),
            extract_finish os path dest st (gunzip_copy os path dest (world st)),
            st\<lparr>status := UnsupportedFormat (path_suffix path)\<rparr>}
       \<and> path_stem path @ path_suffix path = path_name path
       \<and> (path_name path = ''data.tar.gz''
            \<longrightarrow> dest = parent path @ [''data.tar'']
              \<and> extract_archive os path st
                  = extract_finish os path dest st (tar_extractall os path dest (world st)))
       \<and> (path_name path = ''note.gz''
            \<longrightarrow> dest = parent path @ [''note'']
              \<and> extract_archive os path st
                  = extract_finish os path dest st (gunzip_copy os path dest (world st)))
       \<and> (fst (refresh_table os (st\<lparr>world := w'\<rparr>)) = None
            \<longrightarrow> world (extract_finish os path dest st (None, w')) = w'
              \<and> undo (extract_finish os path dest st (None, w'))
                  = undo st @ [(''extract '' @ path_name path, UndoExtract dest)])
       \<and> (path_suffix path = [] \<or> hd (path_suffix path) = CHR ''.'')
       \<and> CHR ''.'' \<notin> set (drop 1 (path_suffix path))"
proof (intro conjI impI)
  show "extract_archive os path st \<in>
           {extract_finish os path dest st (zip_extractall os path dest (world st)),
            extract_finish os path dest st (tar_extractall os path dest (world st)),
            extract_finish os path dest st (gunzip_copy os path dest (world st)),
            st\<lparr>status := UnsupportedFormat (path_suffix path)\<rparr>}"
    using assms(1) by (simp add: extract_archive_def Let_def dest_def)
  show "path_stem path @ path_suffix path = path_name path" by (rule stem_suffix_name)
next
  assume n: "path_name path = ''data.tar.gz''"
  show "dest = parent path @ [''data.tar'']"
    by (simp add: dest_def stem_data_tar_gz[OF n] joinpath_def startswith_def parts_data_tar)
  show "extract_archive os path st
          = extract_finish os path dest st (tar_extractall os path dest (world st))"
    using assms(1) by (simp add: extract_archive_def Let_def dest_def n lower_data_tar_gz ends_data)
next
  assume n: "path_name path = ''note.gz''"
  show "dest = parent path @ [''note'']"
    by (simp add: dest_def stem_note_gz[OF n] joinpath_def startswith_def parts_note)
  show "extract_archive os path st
          = extract_finish os path dest st (gunzip_copy os path dest (world st))"
    using assms(1) by (simp add: extract_archive_def Let_def dest_def n lower_note_gz ends_note)
next
  assume r: "fst (refresh_table os (st\<lparr>world := w'\<rparr>)) = None"
  show "world (extract_finish os path dest st (None, w')) = w'"
    by (rule extract_finish_success[OF r])
  show "undo (extract_finish os path dest st (None, w'))
                  = undo st @ [(''extract '' @ path_name path, UndoExtract dest)]"
    by (rule extract_finish_success[OF r])
next
  show "path_suffix path = [] \<or> hd (path_suffix path) = CHR ''.''"
    by (rule suffix_single_dot[THEN conjunct1])
  show "CHR ''.'' \<notin> set (drop 1 (path_suffix path))"
    by (rule suffix_single_dot[THEN conjunct2])
qed

text \<open>The two archives of the scenario, extracted in the home directory.\<close>

theorem extract_destination_witness:
  "parent data_tar_gz = current_dir demo_app
 \<and> path_name data_tar_gz = ''data.tar.gz''
 \<and> joinpath (parent data_tar_gz) (path_stem data_tar_gz) = parent data_tar_gz @ [''data.tar'']
 \<and> extract_archive (demo_os demo_git_missing) data_tar_gz demo_app
      = extract_finish (demo_os demo_git_missing) data_tar_gz [''/'', ''home'', ''data.tar'']
          demo_app (tar_extractall (demo_os demo_git_missing) data_tar_gz
                      [''/'', ''home'', ''data.tar''] (world demo_app))
 \<and> tar_extractall (demo_os demo_git_missing) data_tar_gz [''/'', ''home'', ''data.tar'']
      (world demo_app) = (None, demo_world_untarred)
 \<and> fst (refresh_table (demo_os demo_git_missing) (demo_app\<lparr>world := demo_world_untarred\<rparr>))
      = None
 \<and> world (extract_archive (demo_os demo_git_missing) data_tar_gz demo_app) = demo_world_untarred
 \<and> undo (extract_archive (demo_os demo_git_missing) data_tar_gz demo_app)
      = [(''extract data.tar.gz'', UndoExtract [''/'', ''home'', ''data.tar''])]
 \<and> parent note_gz = current_dir demo_app
 \<and> path_name note_gz = ''note.gz''
 \<and> extract_archive (demo_os demo_git_missing) note_gz demo_app
      = extract_finish (demo_os demo_git_missing) note_gz [''/'', ''home'', ''note'']
          demo_app (gunzip_copy (demo_os demo_git_missing) note_gz
                      [''/'', ''home'', ''note''] (world demo_app))
 \<and> world (extract_archive (demo_os demo_git_missing) note_gz demo_app) = demo_world_gunzipped
 \<and> map_of demo_world_gunzipped [''/'', ''home'', ''note''] = Some (File ''plain text'')"
proof -
  let ?G = "demo_os demo_git_missing"
  have p1: "parent data_tar_gz = current_dir demo_app" by code_simp
  have n1: "path_name data_tar_gz = ''data.tar.gz''" by code_simp
  have d1: "parent data_tar_gz @ [''data.tar''] = [''/'', ''home'', ''data.tar'']" by code_simp
  have x1: "tar_extractall ?G data_tar_gz [''/'', ''home'', ''data.tar''] (world demo_app)
              = (None, demo_world_untarred)" by code_simp
  have r1: "fst (refresh_table ?G (demo_app\<lparr>world := demo_world_untarred\<rparr>)) = None"
    by code_simp
  have u0: "undo demo_app = []" by (simp add: demo_app_def)
  have p2: "parent note_gz = current_dir demo_app" by code_simp
  have n2: "path_name note_gz = ''note.gz''" by code_simp
  have d2: "parent note_gz @ [''note''] = [''/'', ''home'', ''note'']" by code_simp
  have w2: "world (extract_archive ?G note_gz demo_app) = demo_world_gunzipped" by code_simp
  have m2: "map_of demo_world_gunzipped [''/'', ''home'', ''note''] = Some (File ''plain text'')"
    by code_simp
  note t1 = extract_destination[OF p1, of ?G demo_world_untarred]
  note a = t1[THEN conjunct2, THEN conjunct2, THEN conjunct1, THEN mp, OF n1]
  note dest1 = a[THEN conjunct1, unfolded d1]
  note b = a[THEN conjunct2, unfolded dest1]
  note c = t1[THEN conjunct2, THEN conjunct2, THEN conjunct2, THEN conjunct2, THEN conjunct1,
              THEN mp, OF r1, unfolded dest1]
  note t2 = extract_destination[OF p2, of ?G]
  note e = t2[THEN conjunct2, THEN conjunct2, THEN conjunct2, THEN conjunct1, THEN mp, OF n2]
  note dest2 = e[THEN conjunct1, unfolded d2]
  note f = e[THEN conjunct2, unfolded dest2]
  show ?thesis
    using p1 n1 dest1 b x1 r1 c u0 p2 n2 f w2 m2 d1
    by (intro conjI) simp_all
qed


subsection \<open>\<open>get_git_status\<close>\<close>

lemma split_from_none:
  "\<not> sublist sep s \<Longrightarrow> split_from sep cur s = [cur @ s]"
proof (induction s arbitrary: cur)
  case Nil
  then show ?case by simp
next
  case (Cons c cs)
  have np: "\<not> prefix sep (c # cs)"
    using Cons.prems by (meson prefix_imp_sublist)
  have ns: "\<not> sublist sep cs"
    using Cons.prems by (meson sublist_Cons_right)
  show ?case using np Cons.IH[OF ns] by simp
qed

lemma split_from_first:
  assumes "sep \<noteq> []" "\<not> sublist sep (old @ butlast sep)"
  shows "split_from sep cur (old @ sep @ new) = (cur @ old) # split_from sep [] new"
  using assms
proof (induction old arbitrary: cur)
  case Nil
  then show ?case by (cases sep) auto
next
  case (Cons c old)
  have ns: "\<not> sublist sep (old @ butlast sep)"
    using Cons.prems(2) by (metis append_Cons sublist_Cons_right)
  have np: "\<not> prefix sep ((c # old) @ sep @ new)"
  proof
    assume p: "prefix sep ((c # old) @ sep @ new)"
    have len: "length sep \<le> length ((c # old) @ butlast sep)" by simp
    have "(c # old) @ sep @ new = ((c # old) @ butlast sep) @ (last sep # new)"
      using Cons.prems(1) by simp
    with p len have "prefix sep ((c # old) @ butlast sep)"
      by (metis prefix_length_prefix prefixI)
    then show False using Cons.prems(2) by (meson prefix_imp_sublist)
  qed
  show ?case using np Cons.IH[OF Cons.prems(1) ns] by simp
qed

lemma sublist_single: "sublist [c] s \<longleftrightarrow> c \<in> set s"
  by (auto simp: sublist_def in_set_conv_decomp)

lemma first_segment_parts:
  assumes "first_segment s \<notin> {[], ''.''}"
  shows "(case path_parts s of [] \<Rightarrow> s | p # _ \<Rightarrow> p) = first_segment s"
proof -
  define seg where "seg = first_segment s"
  define rest where "rest = dropWhile (\<lambda>c. c \<noteq> CHR ''/'') s"
  have s: "s = seg @ rest" by (simp add: seg_def rest_def first_segment_def)
  have seg_ne: "seg \<noteq> []" "seg \<noteq> ''.''" using assms by (simp_all add: seg_def)
  have noslash: "CHR ''/'' \<notin> set seg"
    unfolding seg_def first_segment_def by (auto dest: set_takeWhileD)
  have hd_ne: "take 1 s \<noteq> ''/''"
    using s seg_ne(1) noslash by (cases seg) auto
  have root: "splitroot s = ([], s)" using hd_ne by (simp add: splitroot_def)
  have ns: "\<not> sublist ''/'' seg" using noslash by (simp add: sublist_single)
  have "\<exists>tl. split s ''/'' = seg # tl"
  proof (cases rest)
    case Nil
    then show ?thesis using s split_from_none[OF ns, of "[]"] by (simp add: split_def)
  next
    case (Cons c rest')
    have "c = CHR ''/''"
      using Cons hd_dropWhile[of "\<lambda>c. c \<noteq> CHR ''/''" s] by (simp add: rest_def)
    then have "s = seg @ ''/'' @ rest'" using s Cons by simp
    moreover have "split_from ''/'' [] (seg @ ''/'' @ rest') = ([] @ seg) # split_from ''/'' [] rest'"
      by (rule split_from_first) (use ns in simp_all)
    ultimately show ?thesis by (simp add: split_def)
  qed
  then obtain tl where sp: "split s ''/'' = seg # tl" by blast
  have "path_parts s = seg # filter (\<lambda>x. x \<noteq> [] \<and> x \<noteq> ''.'') tl"
    using root sp seg_ne by (simp add: path_parts_def)
  then show ?thesis by (simp add: seg_def)
qed

lemma top_level_name_plain:
  assumes "\<not> contains (strip rest) '' -> ''" "first_segment (strip rest) \<notin> {[], ''.''}"
  shows "top_level_name rest = first_segment (strip rest)"
  using assms first_segment_parts[OF assms(2)] by (simp add: top_level_name_def Let_def)

lemma top_level_name_rename:
  assumes fp: "strip rest = old @ '' -> '' @ new"
      and first: "\<not> contains (old @ '' ->'') '' -> ''"
      and none: "\<not> contains new '' -> ''"
      and seg: "first_segment new \<notin> {[], ''.''}"
  shows "top_level_name rest = first_segment new"
proof -
  have c: "contains (strip rest) '' -> ''"
    unfolding fp contains_def by (rule sublist_appendI)
  have "split (strip rest) '' -> '' = ([] @ old) # split_from '' -> '' [] new"
    unfolding split_def fp by (rule split_from_first) (use first in \<open>simp_all add: contains_def\<close>)
  also have "split_from '' -> '' [] new = [[] @ new]"
    by (rule split_from_none) (use none in \<open>simp add: contains_def\<close>)
  finally have l: "last (split (strip rest) '' -> '') = new" by simp
  have "top_level_name rest = (case path_parts new of [] \<Rightarrow> new | p # _ \<Rightarrow> p)"
    unfolding top_level_name_def Let_def l using c by simp
  then show ?thesis using first_segment_parts[OF seg] by simp
qed

lemma find_Some_mem: "find P xs = Some x \<Longrightarrow> P x \<and> x \<in> set xs"
  by (induction xs) (auto split: if_splits)

lemma strip_two: "strip [x, y] = ''??'' \<longleftrightarrow> x = CHR ''?'' \<and> y = CHR ''?''"
proof -
  have q: "\<not> is_space CHR ''?''" by (simp add: is_space_def)
  show ?thesis
    by (cases "is_space x"; cases "is_space y") (auto simp: strip_def q)
qed

lemma status_code_spec:
  "status_code [x, y] = spec_status_code x y"
  by (simp add: status_code_def spec_status_code_def strip_two Let_def)

lemma take_two:
  assumes "4 \<le> length line"
  shows "take 2 line = [line ! 0, line ! 1]"
proof -
  obtain a b rest where "line = a # b # rest"
    using assms by (cases line; cases "tl line") auto
  then show ?thesis by simp
qed

lemma status_step_spec:
  assumes "4 \<le> length line"
  shows "status_step line m
           = m(top_level_name (drop 3 line) \<mapsto> spec_status_code (line ! 0) (line ! 1))"
  using assms by (simp add: status_step_def take_two status_code_spec)

lemma spec_status_code_range:
  "spec_status_code x y \<in> {''?'', ''A'', ''M'', ''D'', ''R'', ''~''}"
  by (simp add: spec_status_code_def)

lemma fold_status_step:
  "fold status_step ls m n =
     (case find (\<lambda>l. 4 \<le> length l \<and> top_level_name (drop 3 l) = n) (rev ls) of
        None \<Rightarrow> m n
      | Some l \<Rightarrow> Some (spec_status_code (l ! 0) (l ! 1)))"
proof (induction ls rule: rev_induct)
  case Nil
  then show ?case by simp
next
  case (snoc l ls)
  show ?case
  proof (cases "4 \<le> length l")
    case True
    then show ?thesis using snoc by (simp add: status_step_spec)
  next
    case False
    then show ?thesis using snoc by (simp add: status_step_def)
  qed
qed

lemma get_git_status_completed:
  assumes "subprocess_run os w git_argv d 2 = Completed 0 out"
  shows "get_git_status os w d = fold status_step (splitlines out) Map.empty"
  using assms by (simp add: get_git_status_def git_status_body_def)

lemma get_git_status_last_line:
  assumes run: "subprocess_run os w git_argv d 2 = Completed 0 out"
      and mem: "line \<in> set (splitlines out)" and len: "4 \<le> length line"
  shows "\<exists>l \<in> set (splitlines out). 4 \<le> length l
            \<and> top_level_name (drop 3 l) = top_level_name (drop 3 line)
            \<and> get_git_status os w d (top_level_name (drop 3 line))
                = Some (spec_status_code (l ! 0) (l ! 1))"
proof -
  let ?P = "\<lambda>l. 4 \<le> length l \<and> top_level_name (drop 3 l) = top_level_name (drop 3 line)"
  have "\<exists>l \<in> set (rev (splitlines out)). ?P l" using mem len by auto
  then obtain l where f: "find ?P (rev (splitlines out)) = Some l"
    by (cases "find ?P (rev (splitlines out))") (auto simp: find_None_iff)
  from find_Some_mem[OF f] have "l \<in> set (splitlines out)" "?P l"
    by simp_all
  moreover have "get_git_status os w d (top_level_name (drop 3 line))
                = Some (spec_status_code (l ! 0) (l ! 1))"
    unfolding get_git_status_completed[OF run] fold_status_step f by simp
  ultimately show ?thesis by (intro bexI[of _ l]) simp_all
qed

text \<open>
  Claim C5. A status line (two status columns, a separator, a path) files exactly one code
  under one name. The code follows the precedence of the specification: \<open>?\<close> for \<open>??\<close>,
  else \<open>A\<close> if either column is \<open>A\<close>, else \<open>M\<close>, else \<open>D\<close>, else \<open>R\<close>, else \<open>~\<close>. The name is
  the first segment of the path: of the path itself when the line has no rename arrow, and
  of the new name when the line is \<open>old -> new\<close>; so a change below a subdirectory is filed
  under that subdirectory. In the mapping that \<open>get_git_status\<close> returns, the name of every
  line of the output carries the code of a line filed under it (the last such line).
\<close>

theorem status_line_code:
  assumes "4 \<le> length line"
  defines "fp \<equiv> strip (drop 3 line)"
      and "name \<equiv> top_level_name (drop 3 line)"
      and "code \<equiv> spec_status_code (line ! 0) (line ! 1)"
  shows "status_step line m = m(name \<mapsto> code)
       \<and> status_code (take 2 line) = code
       \<and> code \<in> {''?'', ''A'', ''M'', ''D'', ''R'', ''~''}
       \<and> (\<not> contains fp '' -> '' \<and> first_segment fp \<notin> {[], ''.''} \<longrightarrow> name = first_segment fp)
       \<and> (\<forall>old new. fp = old @ '' -> '' @ new \<and> \<not> contains (old @ '' ->'') '' -> ''
             \<and> \<not> contains new '' -> '' \<and> first_segment new \<notin> {[], ''.''}
            \<longrightarrow> name = first_segment new)
       \<and> (subprocess_run os w git_argv d 2 = Completed 0 out \<and> line \<in> set (splitlines out)
            \<longrightarrow> (\<exists>l \<in> set (splitlines out). 4 \<le> length l \<and> top_level_name (drop 3 l) = name
                   \<and> get_git_status os w d name = Some (spec_status_code (l ! 0) (l ! 1))))"
proof (intro conjI impI allI)
  show "status_step line m = m(name \<mapsto> code)"
    unfolding name_def code_def by (rule status_step_spec[OF assms(1)])
  show "status_code (take 2 line) = code"
    unfolding code_def take_two[OF assms(1)] by (rule status_code_spec)
  show "code \<in> {''?'', ''A'', ''M'', ''D'', ''R'', ''~''}"
    unfolding code_def by (rule spec_status_code_range)
next
  assume "\<not> contains fp '' -> '' \<and> first_segment fp \<notin> {[], ''.''}"
  then show "name = first_segment fp"
    unfolding name_def fp_def by (intro top_level_name_plain) simp_all
next
  fix old new
  assume "fp = old @ '' -> '' @ new \<and> \<not> contains (old @ '' ->'') '' -> ''
             \<and> \<not> contains new '' -> '' \<and> first_segment new \<notin> {[], ''.''}"
  then show "name = first_segment new"
    unfolding name_def fp_def by (intro top_level_name_rename[where old = old]) simp_all
next
  assume h: "subprocess_run os w git_argv d 2 = Completed 0 out \<and> line \<in> set (splitlines out)"
  from h have run: "subprocess_run os w git_argv d 2 = Completed 0 out"
    and mem: "line \<in> set (splitlines out)" by simp_all
  show "\<exists>l \<in> set (splitlines out). 4 \<le> length l \<and> top_level_name (drop 3 l) = name
                   \<and> get_git_status os w d name = Some (spec_status_code (l ! 0) (l ! 1))"
    unfolding name_def by (rule get_git_status_last_line[OF run mem assms(1)])
qed

text \<open>A modified file in a subdirectory, a rename into another one, and a whole output of four lines.\<close>

theorem status_line_code_witness:
  "4 \<le> length '' M lib/app/main.py''
 \<and> status_step '' M lib/app/main.py'' Map.empty ''lib'' = Some ''M''
 \<and> top_level_name (drop 3 '' M lib/app/main.py'') = ''lib''
 \<and> 4 \<le> length ''R  old.txt -> new/dir.txt''
 \<and> strip (drop 3 ''R  old.txt -> new/dir.txt'') = ''old.txt'' @ '' -> '' @ ''new/dir.txt''
 \<and> top_level_name (drop 3 ''R  old.txt -> new/dir.txt'') = ''new''
 \<and> spec_status_code (''R  old.txt -> new/dir.txt'' ! 0) (''R  old.txt -> new/dir.txt'' ! 1) = ''R''
 \<and> subprocess_run (demo_os (Completed 0 porcelain_out)) demo_world git_argv [''/'', ''home''] 2
      = Completed 0 porcelain_out
 \<and> ''R  old.txt -> new/dir.txt'' \<in> set (splitlines porcelain_out)
 \<and> (\<exists>l \<in> set (splitlines porcelain_out). 4 \<le> length l \<and> top_level_name (drop 3 l) = ''new''
        \<and> get_git_status (demo_os (Completed 0 porcelain_out)) demo_world [''/'', ''home''] ''new''
             = Some (spec_status_code (l ! 0) (l ! 1)))
 \<and> get_git_status (demo_os (Completed 0 porcelain_out)) demo_world [''/'', ''home''] ''new''
      = Some ''R''
 \<and> get_git_status (demo_os (Completed 0 porcelain_out)) demo_world [''/'', ''home''] ''src''
      = Some ''A''
 \<and> get_git_status (demo_os (Completed 0 porcelain_out)) demo_world [''/'', ''home''] ''docs''
      = Some ''?''"
proof -
  let ?G = "demo_os (Completed 0 porcelain_out)"
  let ?L1 = "'' M lib/app/main.py''"
  let ?L2 = "''R  old.txt -> new/dir.txt''"
  have l1: "4 \<le> length ?L1" by simp
  have l2: "4 \<le> length ?L2" by simp
  have fp1: "strip (drop 3 ?L1) = ''lib/app/main.py''" by code_simp
  have na1: "\<not> contains ''lib/app/main.py'' '' -> ''" by code_simp
  have fs1: "first_segment ''lib/app/main.py'' = ''lib''" by code_simp
  have c1: "spec_status_code (?L1 ! 0) (?L1 ! 1) = ''M''" by code_simp
  have fp2: "strip (drop 3 ?L2) = ''old.txt'' @ '' -> '' @ ''new/dir.txt''" by code_simp
  have na2: "\<not> contains (''old.txt'' @ '' ->'') '' -> ''" by code_simp
  have nb2: "\<not> contains ''new/dir.txt'' '' -> ''" by code_simp
  have fs2: "first_segment ''new/dir.txt'' = ''new''" by code_simp
  have c2: "spec_status_code (?L2 ! 0) (?L2 ! 1) = ''R''" by code_simp
  have run: "subprocess_run ?G demo_world git_argv [''/'', ''home''] 2 = Completed 0 porcelain_out"
    by code_simp
  have mem: "?L2 \<in> set (splitlines porcelain_out)" by code_simp
  have g1: "get_git_status ?G demo_world [''/'', ''home''] ''new'' = Some ''R''" by code_simp
  have g2: "get_git_status ?G demo_world [''/'', ''home''] ''src'' = Some ''A''" by code_simp
  have g3: "get_git_status ?G demo_world [''/'', ''home''] ''docs'' = Some ''?''" by code_simp
  note t1 = status_line_code[OF l1, where m = Map.empty]
  have n1: "top_level_name (drop 3 ?L1) = ''lib''"
    using t1[THEN conjunct2, THEN conjunct2, THEN conjunct2, THEN conjunct1] na1 fs1
    unfolding fp1 by simp
  have s1: "status_step ?L1 Map.empty ''lib'' = Some ''M''"
    using t1[THEN conjunct1] unfolding n1 c1 by simp
  note t2 = status_line_code[OF l2, where os = ?G and w = demo_world and d = "[''/'', ''home'']"
              and out = porcelain_out]
  have "\<forall>old new. strip (drop 3 ?L2) = old @ '' -> '' @ new \<and> \<not> contains (old @ '' ->'') '' -> ''
             \<and> \<not> contains new '' -> '' \<and> first_segment new \<notin> {[], ''.''}
            \<longrightarrow> top_level_name (drop 3 ?L2) = first_segment new"
    using t2[THEN conjunct2, THEN conjunct2, THEN conjunct2, THEN conjunct2, THEN conjunct1] .
  from this[rule_format, of "''old.txt''" "''new/dir.txt''"] fp2 na2 nb2 fs2
  have n2: "top_level_name (drop 3 ?L2) = ''new''" by simp
  have ex: "\<exists>l \<in> set (splitlines porcelain_out). 4 \<le> length l \<and> top_level_name (drop 3 l) = ''new''
        \<and> get_git_status ?G demo_world [''/'', ''home''] ''new'' = Some (spec_status_code (l ! 0) (l ! 1))"
    using t2[THEN conjunct2, THEN conjunct2, THEN conjunct2, THEN conjunct2, THEN conjunct2,
             THEN mp, OF conjI[OF run mem]] unfolding n2 .
  show ?thesis
    using l1 s1 n1 l2 fp2 n2 c2 run mem ex g1 g2 g3 by (intro conjI)
qed


text \<open>
  Claim C9. \<open>get_git_status\<close> never raises and answers every failure with the empty
  mapping: when \<open>subprocess.run\<close>, called with \<open>git status --porcelain\<close>, the directory and
  the timeout of 2 seconds, raises (the tool is missing, the timeout expires, or anything
  else), and when the subprocess exits with a code other than 0 (as it does outside a
  repository). Whatever the body of the \<open>try\<close> raises is turned into the empty mapping.
\<close>

theorem git_status_never_fails:
  "(subprocess_run os w git_argv d 2 = Raised e \<longrightarrow> get_git_status os w d = Map.empty)
 \<and> (subprocess_run os w git_argv d 2 = Completed rc out \<and> rc \<noteq> 0
      \<longrightarrow> get_git_status os w d = Map.empty)
 \<and> (git_status_body os w d = Inl e \<longrightarrow> get_git_status os w d = Map.empty)"
  by (simp add: get_git_status_def git_status_body_def)

text \<open>The tool missing, the timeout, and the exit code of a directory that is no repository.\<close>

theorem git_status_never_fails_witness:
  "subprocess_run (demo_os (Raised (Exn FileNotFoundError ''git''))) demo_world git_argv
      [''/'', ''home''] 2 = Raised (Exn FileNotFoundError ''git'')
 \<and> get_git_status (demo_os (Raised (Exn FileNotFoundError ''git''))) demo_world [''/'', ''home'']
      = Map.empty
 \<and> get_git_status (demo_os (Raised (Exn TimeoutExpired ''git status''))) demo_world
      [''/'', ''home''] = Map.empty
 \<and> subprocess_run (demo_os (Completed 128 ''fatal: not a git repository'')) demo_world git_argv
      [''/'', ''home''] 2 = Completed 128 ''fatal: not a git repository''
 \<and> (128::int) \<noteq> 0
 \<and> get_git_status (demo_os (Completed 128 ''fatal: not a git repository'')) demo_world
      [''/'', ''home''] = Map.empty
 \<and> git_status_body (demo_os (Raised (Exn FileNotFoundError ''git''))) demo_world [''/'', ''home'']
      = Inl (Exn FileNotFoundError ''git'')"
proof -
  let ?d = "[''/'', ''home'']"
  let ?e1 = "Exn FileNotFoundError ''git''"
  let ?e2 = "Exn TimeoutExpired ''git status''"
  let ?out = "''fatal: not a git repository''"
  have r1: "subprocess_run (demo_os (Raised ?e1)) demo_world git_argv ?d 2 = Raised ?e1"
    by (simp add: demo_os_def)
  have r2: "subprocess_run (demo_os (Raised ?e2)) demo_world git_argv ?d 2 = Raised ?e2"
    by (simp add: demo_os_def)
  have r3: "subprocess_run (demo_os (Completed 128 ?out)) demo_world git_argv ?d 2
              = Completed 128 ?out"
    by (simp add: demo_os_def)
  have nz: "(128::int) \<noteq> 0" by simp
  have b1: "git_status_body (demo_os (Raised ?e1)) demo_world ?d = Inl ?e1"
    by (simp add: git_status_body_def demo_os_def)
  note a = git_status_never_fails[THEN conjunct1, THEN mp, OF r1]
  note b = git_status_never_fails[THEN conjunct1, THEN mp, OF r2]
  note c = git_status_never_fails[THEN conjunct2, THEN conjunct1, THEN mp, OF conjI[OF r3 nz]]
  note d = git_status_never_fails[THEN conjunct2, THEN conjunct2, THEN mp, OF b1]
  show ?thesis using r1 a b r3 nz c b1 by (intro conjI)
qed


end
